theory Spec2Isabelle
  imports Main "HOL-Library.Word"
begin

unbundle bit_operations_syntax

section \<open>AT91 peripheral clocks (drivers/clk/at91/clk-peripheral.c)\<close>

text \<open>
  The driver exposes two kinds of clock nodes to the common clock framework: the legacy
  node \<open>struct clk_peripheral\<close>, gated through the bit-addressed registers PCER, PCDR and
  PCSR, and the node \<open>struct clk_sam9x5_peripheral\<close>, which reaches its enable bit and its
  divider through the shared, indirectly addressed PCR register.

  Machine integers: \<open>u32\<close> and \<open>unsigned int\<close> are \<open>32 word\<close>. The width of
  \<open>unsigned long\<close> is left open as \<open>'l word\<close> (it is 32 on the ARM cores of the AT91
  family), so every statement below holds for each width. \<open>>>\<close> on an unsigned value
  is \<open>drop_bit\<close>, that is division by a power of two; \<open>int shift\<close> only ever holds
  0..4 and is a \<open>nat\<close>. Comparison of words is unsigned, as in the C code. The
  shifts by 0..3 in the loops and the shift by \<open>id & 31\<close> of a 32-bit one are below the
  width of their operand. The shift by the divider of the node in \<open>recalc_rate\<close> need
  not be: C leaves it undefined from the width of \<open>unsigned long\<close> on, and the model
  then has no rate (\<open>None\<close>).
\<close>

type_synonym u32 = "32 word"

subsection \<open>Constants\<close>

abbreviation (input) PERIPHERAL_ID_MIN :: u32 where "PERIPHERAL_ID_MIN \<equiv> 2"
abbreviation (input) PERIPHERAL_ID_MAX :: u32 where "PERIPHERAL_ID_MAX \<equiv> 31"
abbreviation (input) PERIPHERAL_MAX_SHIFT :: nat where "PERIPHERAL_MAX_SHIFT \<equiv> 3"

definition PERIPHERAL_MASK :: "u32 \<Rightarrow> u32" where
  "PERIPHERAL_MASK i = push_bit (unat (i AND PERIPHERAL_ID_MAX)) 1"

text \<open>
  Modelled from the spec: the enable, disable and status registers of the two banks
  and the enable bit of the control register, whose macros are declared in
  \<open>include/linux/clk/at91_pmc.h\<close>, and the error numbers of \<open>errno-base.h\<close>; neither
  header is among the sources. The values are those of the headers. The general
  statements below use of them only that \<open>-EINVAL\<close> is not 0; the examples also use the
  position of the enable bit and that the offsets differ.
\<close>

definition AT91_PMC_PCER :: u32 where "AT91_PMC_PCER = 0x10"
definition AT91_PMC_PCDR :: u32 where "AT91_PMC_PCDR = 0x14"
definition AT91_PMC_PCSR :: u32 where "AT91_PMC_PCSR = 0x18"
definition AT91_PMC_PCER1 :: u32 where "AT91_PMC_PCER1 = 0x100"
definition AT91_PMC_PCDR1 :: u32 where "AT91_PMC_PCDR1 = 0x104"
definition AT91_PMC_PCSR1 :: u32 where "AT91_PMC_PCSR1 = 0x108"
definition AT91_PMC_PCR_EN :: u32 where "AT91_PMC_PCR_EN = push_bit 28 1"

definition EINVAL :: int where "EINVAL = 22"
definition ENOMEM :: int where "ENOMEM = 12"

subsection \<open>The register transport\<close>

text \<open>
  Modelled from the spec: the register transport, which offers a read, a write and a
  masked update of a register. \<open>struct regmap *\<close> is a handle to it. The hardware
  behind it is a state of an arbitrary type \<open>'h\<close>; the three accessors the driver
  calls are the fields of the handle, so every statement holds for each transport. A
  read may change the hardware state. The driver ignores the status that the accessors
  return.
\<close>

record 'h regmap =
  regmap_read :: "u32 \<Rightarrow> 'h \<Rightarrow> u32 \<times> 'h"
  regmap_write :: "u32 \<Rightarrow> u32 \<Rightarrow> 'h \<Rightarrow> 'h"
  regmap_update_bits :: "u32 \<Rightarrow> u32 \<Rightarrow> u32 \<Rightarrow> 'h \<Rightarrow> 'h"

subsection \<open>Node types\<close>

text \<open>
  Field names that HOL already uses (\<open>id\<close>, \<open>div\<close>, \<open>range\<close>, \<open>min\<close>, \<open>max\<close>) or that two
  structs share carry a suffix: \<open>_p\<close> in the legacy node, \<open>_s\<close> in the sam9x5 node, \<open>_r\<close>
  in the range.
\<close>

record 'h clk_peripheral =
  regmap_p :: "'h regmap"
  id_p :: u32

text \<open>
  Modelled from the spec: the rate range \<open>struct clk_range\<close> and the register layout
  descriptor \<open>struct clk_pcr_layout\<close>, both declared in \<open>pmc.h\<close>, which is not among the
  sources. A maximum of 0 means that no range is configured.
\<close>

record (overloaded) 'l clk_range =
  min_r :: "'l word"
  max_r :: "'l word"

record clk_pcr_layout =
  offset :: u32
  cmd :: u32
  div_mask :: u32
  gckcss_mask :: u32
  pid_mask :: u32

text \<open>
  The \<open>lock\<close> field only serialises concurrent callers and is not part of the
  sequential model.
\<close>

record (overloaded) ('h, 'l) clk_sam9x5_peripheral =
  regmap_s :: "'h regmap"
  range_s :: "'l clk_range"
  id_s :: u32
  div_s :: u32
  layout :: clk_pcr_layout
  auto_div :: bool

subsection \<open>Field access macros of pmc.h\<close>

text \<open>
  \<open>ffs\<close> of the C library and the kernel is the position, counted from 1, of the least
  significant set bit, and 0 for 0.
\<close>

function ffs :: "u32 \<Rightarrow> nat" where
  "ffs w = (if w = 0 then 0 else if bit w 0 then 1 else Suc (ffs (drop_bit 1 w)))"
  by pat_completeness auto
termination
proof (relation "measure unat")
  show "wf (measure unat)" by simp
next
  fix w :: u32
  assume "w \<noteq> 0"
  then have "unat w \<noteq> 0" by (simp add: unat_eq_0)
  then have "unat w div 2 < unat w" by simp
  then show "(drop_bit 1 w, w) \<in> measure unat"
    by (simp add: unat_drop_bit_eq drop_bit_Suc unat_div)
qed

text \<open>
  Modelled from the spec: the macros \<open>field_get\<close> and \<open>field_prep\<close> of \<open>pmc.h\<close>, which is
  not among the sources. \<open>field_get\<close> extracts the value of the field selected by the
  mask, \<open>(reg & mask) >> (ffs(mask) - 1)\<close>, and \<open>field_prep\<close> places a value into it,
  \<open>(val << (ffs(mask) - 1)) & mask\<close>. For the mask 0, where the C shift count is -1,
  both are 0, since the value shifted or the mask applied is 0.
\<close>

definition field_get :: "u32 \<Rightarrow> u32 \<Rightarrow> u32" where
  "field_get m reg = drop_bit (ffs m - 1) (reg AND m)"

definition field_prep :: "u32 \<Rightarrow> u32 \<Rightarrow> u32" where
  "field_prep m val = push_bit (ffs m - 1) val AND m"

subsection \<open>The legacy node\<close>

definition clk_peripheral_enable :: "'h clk_peripheral \<Rightarrow> 'h \<Rightarrow> int \<times> 'h" where
  "clk_peripheral_enable periph h =
     (let i = id_p periph in
      if i < PERIPHERAL_ID_MIN then (0, h)
      else
        let offs = (if i > PERIPHERAL_ID_MAX then AT91_PMC_PCER1 else AT91_PMC_PCER)
        in (0, regmap_write (regmap_p periph) offs (PERIPHERAL_MASK i) h))"

definition clk_peripheral_disable :: "'h clk_peripheral \<Rightarrow> 'h \<Rightarrow> 'h" where
  "clk_peripheral_disable periph h =
     (let i = id_p periph in
      if i < PERIPHERAL_ID_MIN then h
      else
        let offs = (if i > PERIPHERAL_ID_MAX then AT91_PMC_PCDR1 else AT91_PMC_PCDR)
        in regmap_write (regmap_p periph) offs (PERIPHERAL_MASK i) h)"

definition clk_peripheral_is_enabled :: "'h clk_peripheral \<Rightarrow> 'h \<Rightarrow> int \<times> 'h" where
  "clk_peripheral_is_enabled periph h =
     (let i = id_p periph in
      if i < PERIPHERAL_ID_MIN then (1, h)
      else
        let offs = (if i > PERIPHERAL_ID_MAX then AT91_PMC_PCSR1 else AT91_PMC_PCSR);
            (status, h') = regmap_read (regmap_p periph) offs h
        in (if status AND PERIPHERAL_MASK i \<noteq> 0 then 1 else 0, h'))"

text \<open>
  The constructors return \<open>ERR_PTR(code)\<close> as \<open>Inl code\<close> and the node as \<open>Inr\<close>. A
  \<open>NULL\<close> string is \<open>None\<close>. Whether \<open>kzalloc\<close> finds memory (\<open>alloc_ok\<close>) and what
  \<open>clk_hw_register\<close> returns (\<open>ret\<close>) are inputs.
\<close>

definition at91_clk_register_peripheral ::
  "'h regmap \<Rightarrow> string option \<Rightarrow> string option \<Rightarrow> u32 \<Rightarrow> bool \<Rightarrow> int \<Rightarrow> int + 'h clk_peripheral"
where
  "at91_clk_register_peripheral rm name parent_name i alloc_ok ret =
     (if name = None \<or> parent_name = None \<or> i > PERIPHERAL_ID_MAX then Inl (- EINVAL)
      else if \<not> alloc_ok then Inl (- ENOMEM)
      else if ret \<noteq> 0 then Inl ret
      else Inr \<lparr>regmap_p = rm, id_p = i\<rparr>)"

subsection \<open>The indirectly addressed node\<close>

text \<open>
  The loop of \<open>clk_sam9x5_peripheral_autodiv\<close>:
  \<open>for (; shift < PERIPHERAL_MAX_SHIFT; shift++) if (parent_rate >> shift <= max) break;\<close>
  The result is the value of \<open>shift\<close> after the loop.
\<close>

function autodiv_loop :: "'l::len word \<Rightarrow> 'l word \<Rightarrow> nat \<Rightarrow> nat" where
  "autodiv_loop parent_rate mx shift =
     (if shift < PERIPHERAL_MAX_SHIFT then
        (if drop_bit shift parent_rate \<le> mx then shift
         else autodiv_loop parent_rate mx (shift + 1))
      else shift)"
  by pat_completeness auto
termination
  by (relation "measure (\<lambda>(p, m, shift). PERIPHERAL_MAX_SHIFT - shift)") auto

text \<open>
  \<open>core_rate\<close> is what the clock framework answers to
  \<open>clk_hw_get_rate(clk_hw_get_parent_by_index(hw, 0))\<close>; it is 0 while the parent is
  unknown.
\<close>

definition clk_sam9x5_peripheral_autodiv ::
  "('h, 'l::len) clk_sam9x5_peripheral \<Rightarrow> 'l word \<Rightarrow> ('h, 'l) clk_sam9x5_peripheral"
where
  "clk_sam9x5_peripheral_autodiv periph core_rate =
     (if \<not> auto_div periph then periph
      else if max_r (range_s periph) \<noteq> 0 then
        (if core_rate = 0 then periph
         else periph\<lparr>auto_div := False,
                     div_s := of_nat (autodiv_loop core_rate (max_r (range_s periph)) 0)\<rparr>)
      else periph\<lparr>auto_div := False, div_s := 0\<rparr>)"

definition clk_sam9x5_peripheral_enable ::
  "('h, 'l::len) clk_sam9x5_peripheral \<Rightarrow> 'h \<Rightarrow> int \<times> 'h"
where
  "clk_sam9x5_peripheral_enable periph h =
     (if id_s periph < PERIPHERAL_ID_MIN then (0, h)
      else
        let lay = layout periph;
            h1 = regmap_write (regmap_s periph) (offset lay) (id_s periph AND pid_mask lay) h;
            h2 = regmap_update_bits (regmap_s periph) (offset lay)
                   (div_mask lay OR cmd lay OR AT91_PMC_PCR_EN)
                   (field_prep (div_mask lay) (div_s periph) OR cmd lay OR AT91_PMC_PCR_EN) h1
        in (0, h2))"

definition clk_sam9x5_peripheral_disable ::
  "('h, 'l::len) clk_sam9x5_peripheral \<Rightarrow> 'h \<Rightarrow> 'h"
where
  "clk_sam9x5_peripheral_disable periph h =
     (if id_s periph < PERIPHERAL_ID_MIN then h
      else
        let lay = layout periph;
            h1 = regmap_write (regmap_s periph) (offset lay) (id_s periph AND pid_mask lay) h
        in regmap_update_bits (regmap_s periph) (offset lay)
             (AT91_PMC_PCR_EN OR cmd lay) (cmd lay) h1)"

definition clk_sam9x5_peripheral_is_enabled ::
  "('h, 'l::len) clk_sam9x5_peripheral \<Rightarrow> 'h \<Rightarrow> int \<times> 'h"
where
  "clk_sam9x5_peripheral_is_enabled periph h =
     (if id_s periph < PERIPHERAL_ID_MIN then (1, h)
      else
        let lay = layout periph;
            h1 = regmap_write (regmap_s periph) (offset lay) (id_s periph AND pid_mask lay) h;
            (status, h2) = regmap_read (regmap_s periph) (offset lay) h1
        in (if status AND AT91_PMC_PCR_EN \<noteq> 0 then 1 else 0, h2))"

text \<open>
  \<open>recalc_rate\<close> returns the rate, the node and the hardware state.
  \<open>parent_rate >> periph->div\<close> shifts by the \<open>u32\<close> divider of the node, which the
  function does not bound: the rate is \<open>Some\<close> value while the divider is below the width
  of \<open>unsigned long\<close>, and \<open>None\<close>, the shift being undefined in C, from the width on.
\<close>

definition clk_sam9x5_peripheral_recalc_rate ::
  "('h, 'l::len) clk_sam9x5_peripheral \<Rightarrow> 'l word \<Rightarrow> 'l word \<Rightarrow> 'h
     \<Rightarrow> 'l word option \<times> ('h, 'l) clk_sam9x5_peripheral \<times> 'h"
where
  "clk_sam9x5_peripheral_recalc_rate periph parent_rate core_rate h =
     (if id_s periph < PERIPHERAL_ID_MIN then (Some parent_rate, periph, h)
      else
        let lay = layout periph;
            h1 = regmap_write (regmap_s periph) (offset lay) (id_s periph AND pid_mask lay) h;
            (status, h2) = regmap_read (regmap_s periph) (offset lay) h1;
            periph' =
              (if status AND AT91_PMC_PCR_EN \<noteq> 0
               then periph\<lparr>div_s := field_get (div_mask lay) status, auto_div := False\<rparr>
               else clk_sam9x5_peripheral_autodiv periph core_rate)
        in (if unat (div_s periph') < LENGTH('l)
            then Some (drop_bit (unat (div_s periph')) parent_rate) else None,
            periph', h2))"

text \<open>
  The first loop of \<open>clk_sam9x5_peripheral_round_rate\<close> looks for the first shift whose
  rate is within the range; it yields \<open>shift\<close> and \<open>cur_rate\<close> as the loop leaves them.
\<close>

function round_rate_ceil :: "'l::len word \<Rightarrow> 'l word \<Rightarrow> nat \<Rightarrow> 'l word \<Rightarrow> nat \<times> 'l word" where
  "round_rate_ceil parent_rate mx shift cur_rate =
     (if shift \<le> PERIPHERAL_MAX_SHIFT then
        (if drop_bit shift parent_rate \<le> mx then (shift, drop_bit shift parent_rate)
         else round_rate_ceil parent_rate mx (shift + 1) (drop_bit shift parent_rate))
      else (shift, cur_rate))"
  by pat_completeness auto
termination
  by (relation "measure (\<lambda>(p, m, shift, c). Suc PERIPHERAL_MAX_SHIFT - shift)") auto

text \<open>The second loop searches the closest rate from that shift on.\<close>

function round_rate_best ::
  "'l::len word \<Rightarrow> 'l word \<Rightarrow> nat \<Rightarrow> 'l word \<Rightarrow> 'l word \<Rightarrow> 'l word"
where
  "round_rate_best parent_rate rate shift best_rate best_diff =
     (if shift \<le> PERIPHERAL_MAX_SHIFT then
        (let cur_rate = drop_bit shift parent_rate;
             cur_diff = (if cur_rate < rate then rate - cur_rate else cur_rate - rate);
             best_rate' = (if cur_diff < best_diff then cur_rate else best_rate);
             best_diff' = (if cur_diff < best_diff then cur_diff else best_diff)
         in if best_diff' = 0 \<or> cur_rate < rate then best_rate'
            else round_rate_best parent_rate rate (shift + 1) best_rate' best_diff')
      else best_rate)"
  by pat_completeness auto
termination
  by (relation "measure (\<lambda>(p, r, shift, b, d). Suc PERIPHERAL_MAX_SHIFT - shift)") auto

text \<open>
  The C function returns \<open>long\<close>; the model returns the \<open>unsigned long\<close> that is
  converted, which has the same bits.
\<close>

definition clk_sam9x5_peripheral_round_rate ::
  "('h, 'l::len) clk_sam9x5_peripheral \<Rightarrow> 'l word \<Rightarrow> 'l word \<Rightarrow> 'l word"
where
  "clk_sam9x5_peripheral_round_rate periph rate parent_rate =
     (if id_s periph < PERIPHERAL_ID_MIN \<or> max_r (range_s periph) = 0 then parent_rate
      else
        let (shift, cur_rate) =
              (if max_r (range_s periph) \<noteq> 0
               then round_rate_ceil parent_rate (max_r (range_s periph)) 0 parent_rate
               else (0, parent_rate))
        in if rate \<ge> cur_rate then cur_rate
           else round_rate_best parent_rate rate shift cur_rate (cur_rate - rate))"

text \<open>The loop of \<open>clk_sam9x5_peripheral_set_rate\<close>, with the return after it.\<close>

function set_rate_loop ::
  "('h, 'l::len) clk_sam9x5_peripheral \<Rightarrow> 'l word \<Rightarrow> 'l word \<Rightarrow> nat
     \<Rightarrow> int \<times> ('h, 'l) clk_sam9x5_peripheral"
where
  "set_rate_loop periph rate parent_rate shift =
     (if shift \<le> PERIPHERAL_MAX_SHIFT then
        (if drop_bit shift parent_rate = rate
         then (0, periph\<lparr>auto_div := False, div_s := of_nat shift\<rparr>)
         else set_rate_loop periph rate parent_rate (shift + 1))
      else (- EINVAL, periph))"
  by pat_completeness auto
termination
  by (relation "measure (\<lambda>(n, r, p, shift). Suc PERIPHERAL_MAX_SHIFT - shift)") auto

definition clk_sam9x5_peripheral_set_rate ::
  "('h, 'l::len) clk_sam9x5_peripheral \<Rightarrow> 'l word \<Rightarrow> 'l word
     \<Rightarrow> int \<times> ('h, 'l) clk_sam9x5_peripheral"
where
  "clk_sam9x5_peripheral_set_rate periph rate parent_rate =
     (if id_s periph < PERIPHERAL_ID_MIN \<or> max_r (range_s periph) = 0 then
        (if parent_rate = rate then (0, periph) else (- EINVAL, periph))
      else if max_r (range_s periph) \<noteq> 0 \<and> rate > max_r (range_s periph)
        then (- EINVAL, periph)
      else set_rate_loop periph rate parent_rate 0)"

text \<open>
  \<open>kzalloc\<close> clears the node, so \<open>auto_div\<close> is false unless the layout has a divider
  field. After a successful registration the divider is resolved once; the call
  \<open>pmc_register_id\<close> records the id elsewhere and does not touch the node.
\<close>

definition at91_clk_register_sam9x5_peripheral ::
  "'h regmap \<Rightarrow> clk_pcr_layout \<Rightarrow> string option \<Rightarrow> string option \<Rightarrow> u32
     \<Rightarrow> 'l::len clk_range \<Rightarrow> bool \<Rightarrow> int \<Rightarrow> 'l word
     \<Rightarrow> int + ('h, 'l) clk_sam9x5_peripheral"
where
  "at91_clk_register_sam9x5_peripheral rm lay name parent_name i rng alloc_ok ret core_rate =
     (if name = None \<or> parent_name = None then Inl (- EINVAL)
      else if \<not> alloc_ok then Inl (- ENOMEM)
      else
        let periph = \<lparr>regmap_s = rm, range_s = rng, id_s = i, div_s = 0, layout = lay,
                        auto_div = (div_mask lay \<noteq> 0)\<rparr>
        in if ret \<noteq> 0 then Inl ret
           else Inr (clk_sam9x5_peripheral_autodiv periph core_rate))"

subsection \<open>Sequences of operations on an indirectly addressed node\<close>

text \<open>
  The operations of \<open>sam9x5_peripheral_ops\<close> and the divider resolution, as the clock
  framework may call them in any order on a node and its hardware. The type parameter
  of an operation is the type of rates, \<open>unsigned long\<close>.
\<close>

datatype 'r clk_op =
    Op_enable
  | Op_disable
  | Op_is_enabled
  | Op_recalc_rate 'r 'r
  | Op_round_rate 'r 'r
  | Op_set_rate 'r 'r
  | Op_autodiv 'r

fun run_op ::
  "'l::len word clk_op \<Rightarrow> ('h, 'l) clk_sam9x5_peripheral \<times> 'h \<Rightarrow> ('h, 'l) clk_sam9x5_peripheral \<times> 'h"
where
  "run_op Op_enable (periph, h) = (periph, snd (clk_sam9x5_peripheral_enable periph h))"
| "run_op Op_disable (periph, h) = (periph, clk_sam9x5_peripheral_disable periph h)"
| "run_op Op_is_enabled (periph, h) = (periph, snd (clk_sam9x5_peripheral_is_enabled periph h))"
| "run_op (Op_recalc_rate parent_rate core_rate) (periph, h) =
     snd (clk_sam9x5_peripheral_recalc_rate periph parent_rate core_rate h)"
| "run_op (Op_round_rate rate parent_rate) (periph, h) = (periph, h)"
| "run_op (Op_set_rate rate parent_rate) (periph, h) =
     (snd (clk_sam9x5_peripheral_set_rate periph rate parent_rate), h)"
| "run_op (Op_autodiv core_rate) (periph, h) =
     (clk_sam9x5_peripheral_autodiv periph core_rate, h)"

fun run_ops ::
  "'l::len word clk_op list \<Rightarrow> ('h, 'l) clk_sam9x5_peripheral \<times> 'h \<Rightarrow> ('h, 'l) clk_sam9x5_peripheral \<times> 'h"
where
  "run_ops [] s = s"
| "run_ops (x # xs) s = run_ops xs (run_op x s)"

subsection \<open>Transports and nodes for the examples\<close>

text \<open>
  Modelled from the spec: the register model of the legacy node, "registers mocked as a
  bit array". The hardware is the two status words; a write to an enable register sets
  the written bits in the status word of its bank, a write to a disable register clears
  them, and the status registers read the words back.
\<close>

record pmc_mock =
  pcsr :: u32
  pcsr1 :: u32

definition pmc_mock_write :: "u32 \<Rightarrow> u32 \<Rightarrow> pmc_mock \<Rightarrow> pmc_mock" where
  "pmc_mock_write reg val h =
     (if reg = AT91_PMC_PCER then h\<lparr>pcsr := pcsr h OR val\<rparr>
      else if reg = AT91_PMC_PCDR then h\<lparr>pcsr := pcsr h AND NOT val\<rparr>
      else if reg = AT91_PMC_PCER1 then h\<lparr>pcsr1 := pcsr1 h OR val\<rparr>
      else if reg = AT91_PMC_PCDR1 then h\<lparr>pcsr1 := pcsr1 h AND NOT val\<rparr>
      else h)"

definition pmc_mock_read :: "u32 \<Rightarrow> pmc_mock \<Rightarrow> u32 \<times> pmc_mock" where
  "pmc_mock_read reg h =
     (if reg = AT91_PMC_PCSR then (pcsr h, h)
      else if reg = AT91_PMC_PCSR1 then (pcsr1 h, h)
      else (0, h))"

definition pmc_mock_regmap :: "pmc_mock regmap" where
  "pmc_mock_regmap =
     \<lparr>regmap_read = pmc_mock_read, regmap_write = pmc_mock_write,
      regmap_update_bits = (\<lambda>reg m val h. h)\<rparr>"

text \<open>
  A transport for the indirectly addressed node: the hardware is the value that the
  control register presents, together with a log of every access made.
\<close>

datatype reg_access =
    Reg_read u32
  | Reg_write u32 u32
  | Reg_update_bits u32 u32 u32

definition pcr_regmap :: "(u32 \<times> reg_access list) regmap" where
  "pcr_regmap =
     \<lparr>regmap_read = (\<lambda>reg (v, l). (v, (v, l @ [Reg_read reg]))),
      regmap_write = (\<lambda>reg val (v, l). (v, l @ [Reg_write reg val])),
      regmap_update_bits =
        (\<lambda>reg m val (v, l). ((v AND NOT m) OR (val AND m), l @ [Reg_update_bits reg m val]))\<rparr>"

text \<open>
  A register layout with a two-bit divider field at bits 16 and 17, and a node with the
  range maximum 83 MHz of the examples.
\<close>

definition example_layout :: clk_pcr_layout where
  "example_layout =
     \<lparr>offset = 0x10c, cmd = 0x1000, div_mask = 0x30000, gckcss_mask = 0x700, pid_mask = 0x3f\<rparr>"

definition example_periph :: "(u32 \<times> reg_access list, 32) clk_sam9x5_peripheral" where
  "example_periph =
     \<lparr>regmap_s = pcr_regmap, range_s = \<lparr>min_r = 0, max_r = 83000000\<rparr>, id_s = 5, div_s = 0,
      layout = example_layout, auto_div = True\<rparr>"

section \<open>Properties\<close>

subsection \<open>Auxiliary facts about the loops\<close>

declare autodiv_loop.simps [simp del]
declare round_rate_ceil.simps [simp del]
declare round_rate_best.simps [simp del]
declare set_rate_loop.simps [simp del]
declare ffs.simps [simp del]

lemma sint_le_uint: "sint (w :: 'l::len word) \<le> uint w"
proof -
  have "- (2 ^ (LENGTH('l) - Suc 0)) \<le> (0::int)" by simp
  also have "0 \<le> uint w" by simp
  finally show ?thesis
    unfolding sint_uint by (simp only: signed_take_bit_int_less_eq_self_iff)
qed

lemma drop_bit_word_mono:
  fixes p :: "'l::len word"
  assumes "s \<le> t"
  shows "drop_bit t p \<le> drop_bit s p"
proof -
  have "(2::nat) ^ s dvd 2 ^ t" using assms by (simp add: le_imp_power_dvd)
  then have "unat p div 2 ^ t \<le> unat p div 2 ^ s"
    using assms by (simp add: div_le_mono2 power_increasing)
  then show ?thesis
    unfolding word_le_nat_alt unat_drop_bit_eq by (simp add: drop_bit_eq_div)
qed

lemma uint_abs_diff:
  fixes a b :: "'l::len word"
  shows "uint (if a < b then b - a else a - b) = \<bar>uint a - uint b\<bar>"
  by (auto simp: uint_sub_if' word_less_def word_le_def not_less)

lemma autodiv_loop_spec:
  fixes p m :: "'l::len word"
  assumes "s \<le> 3"
  shows "s \<le> autodiv_loop p m s \<and> autodiv_loop p m s \<le> 3 \<and>
         (\<forall>t. s \<le> t \<and> t < autodiv_loop p m s \<longrightarrow> \<not> drop_bit t p \<le> m) \<and>
         (autodiv_loop p m s < 3 \<longrightarrow> drop_bit (autodiv_loop p m s) p \<le> m)"
  using assms
proof (induction p m s rule: autodiv_loop.induct)
  case (1 p m s)
  show ?case
  proof (cases "s < 3 \<and> \<not> drop_bit s p \<le> m")
    case True
    then have eq: "autodiv_loop p m s = autodiv_loop p m (s + 1)"
      by (subst autodiv_loop.simps) simp
    from True have ih: "s + 1 \<le> autodiv_loop p m (s + 1) \<and> autodiv_loop p m (s + 1) \<le> 3 \<and>
         (\<forall>t. s + 1 \<le> t \<and> t < autodiv_loop p m (s + 1) \<longrightarrow> \<not> drop_bit t p \<le> m) \<and>
         (autodiv_loop p m (s + 1) < 3 \<longrightarrow> drop_bit (autodiv_loop p m (s + 1)) p \<le> m)"
      using "1.IH" by simp
    have "\<And>t. s \<le> t \<Longrightarrow> t = s \<or> s + 1 \<le> t" by arith
    with ih True show ?thesis unfolding eq by (metis Suc_eq_plus1 Suc_leD)
  next
    case False
    then have eq: "autodiv_loop p m s = s"
      by (subst autodiv_loop.simps) auto
    from False "1.prems" show ?thesis unfolding eq by auto
  qed
qed


lemma round_rate_ceil_spec:
  fixes p m :: "'l::len word"
  assumes "s \<le> 3"
  shows "s \<le> fst (round_rate_ceil p m s c) \<and> fst (round_rate_ceil p m s c) \<le> 4 \<and>
         (\<forall>t. s \<le> t \<and> t < fst (round_rate_ceil p m s c) \<longrightarrow> \<not> drop_bit t p \<le> m) \<and>
         (fst (round_rate_ceil p m s c) \<le> 3 \<longrightarrow>
            snd (round_rate_ceil p m s c) = drop_bit (fst (round_rate_ceil p m s c)) p \<and>
            drop_bit (fst (round_rate_ceil p m s c)) p \<le> m) \<and>
         (fst (round_rate_ceil p m s c) = 4 \<longrightarrow> snd (round_rate_ceil p m s c) = drop_bit 3 p)"
  using assms
proof (induction p m s c rule: round_rate_ceil.induct)
  case (1 p m s c)
  show ?case
  proof (cases "drop_bit s p \<le> m")
    case True
    with "1.prems" have eq: "round_rate_ceil p m s c = (s, drop_bit s p)"
      by (subst round_rate_ceil.simps) simp
    from True "1.prems" show ?thesis unfolding eq by auto
  next
    case False
    with "1.prems" have eq: "round_rate_ceil p m s c = round_rate_ceil p m (s + 1) (drop_bit s p)"
      by (subst round_rate_ceil.simps) simp
    show ?thesis
    proof (cases "s = 3")
      case True
      then have "round_rate_ceil p m (s + 1) (drop_bit s p) = (4, drop_bit 3 p)"
        by (subst round_rate_ceil.simps) simp
      with False True show ?thesis unfolding eq
        by (auto simp: le_less_Suc_eq numeral_eq_Suc)
    next
      case n3: False
      with "1.prems" have "s + 1 \<le> 3" by simp
      with False "1.prems" have ih:
        "s + 1 \<le> fst (round_rate_ceil p m (s + 1) (drop_bit s p)) \<and>
         fst (round_rate_ceil p m (s + 1) (drop_bit s p)) \<le> 4 \<and>
         (\<forall>t. s + 1 \<le> t \<and> t < fst (round_rate_ceil p m (s + 1) (drop_bit s p))
               \<longrightarrow> \<not> drop_bit t p \<le> m) \<and>
         (fst (round_rate_ceil p m (s + 1) (drop_bit s p)) \<le> 3 \<longrightarrow>
            snd (round_rate_ceil p m (s + 1) (drop_bit s p))
              = drop_bit (fst (round_rate_ceil p m (s + 1) (drop_bit s p))) p \<and>
            drop_bit (fst (round_rate_ceil p m (s + 1) (drop_bit s p))) p \<le> m) \<and>
         (fst (round_rate_ceil p m (s + 1) (drop_bit s p)) = 4 \<longrightarrow>
            snd (round_rate_ceil p m (s + 1) (drop_bit s p)) = drop_bit 3 p)"
        using "1.IH" by simp
      have "\<And>t. s \<le> t \<Longrightarrow> t = s \<or> s + 1 \<le> t" by arith
      with ih False show ?thesis unfolding eq by (metis Suc_eq_plus1 Suc_leD)
    qed
  qed
qed

lemma round_rate_best_spec:
  fixes p rate :: "'l::len word"
  assumes "c \<le> b" "b \<le> s" "b \<le> 3" "s \<le> 4"
    and "best_rate = drop_bit b p"
    and "rate < best_rate"
    and "best_diff = best_rate - rate"
    and "\<forall>t. c \<le> t \<and> t < s \<longrightarrow> rate < drop_bit t p \<and>
           \<bar>uint (drop_bit b p) - uint rate\<bar> \<le> \<bar>uint (drop_bit t p) - uint rate\<bar>"
  shows "\<exists>k. c \<le> k \<and> k \<le> 3 \<and>
           round_rate_best p rate s best_rate best_diff = drop_bit k p \<and>
           (\<forall>t. c \<le> t \<and> t \<le> 3 \<longrightarrow>
              \<bar>uint (drop_bit k p) - uint rate\<bar> \<le> \<bar>uint (drop_bit t p) - uint rate\<bar>) \<and>
           (\<forall>t. c \<le> t \<and> t < k \<longrightarrow> rate < drop_bit t p)"
  using assms
proof (induction p rate s best_rate best_diff arbitrary: b rule: round_rate_best.induct)
  case (1 p rate s best_rate best_diff)
  define D where "D t = \<bar>uint (drop_bit t p) - uint rate\<bar>" for t
  note inv = "1.prems"(8) [folded D_def]
  have Db: "uint best_diff = D b"
    using "1.prems"(5,6,7) by (simp add: D_def uint_sub_if' word_less_def)
  show ?case
  proof (cases "s \<le> 3")
    case False
    then have eq: "round_rate_best p rate s best_rate best_diff = best_rate"
      by (subst round_rate_best.simps) simp
    from False "1.prems"(4) have "\<And>t. t \<le> 3 \<Longrightarrow> t < s" by simp
    with inv "1.prems"(1,2,3,5) show ?thesis
      unfolding eq D_def by (intro exI [of _ b]) auto
  next
    case True
    define cur where "cur = drop_bit s p"
    define cur_diff where "cur_diff = (if cur < rate then rate - cur else cur - rate)"
    define br where "br = (if cur_diff < best_diff then cur else best_rate)"
    define bd where "bd = (if cur_diff < best_diff then cur_diff else best_diff)"
    define b' where "b' = (if cur_diff < best_diff then s else b)"
    have eq: "round_rate_best p rate s best_rate best_diff =
        (if bd = 0 \<or> cur < rate then br else round_rate_best p rate (s + 1) br bd)"
      unfolding bd_def br_def cur_diff_def cur_def
      by (subst round_rate_best.simps) (simp only: True if_True Let_def)
    have Ds: "uint cur_diff = D s"
      unfolding cur_diff_def D_def cur_def by (rule uint_abs_diff)
    have lt: "cur_diff < best_diff \<longleftrightarrow> D s < D b"
      by (simp add: word_less_def Ds Db)
    have br: "br = drop_bit b' p"
      by (simp add: br_def b'_def cur_def "1.prems"(5))
    have bd: "uint bd = D b'"
      by (simp add: bd_def b'_def Ds Db)
    have b'_bounds: "c \<le> b'" "b' \<le> s" "b' \<le> 3"
      using "1.prems"(1,2,3) True by (auto simp: b'_def)
    have min_upto: "D b' \<le> D t" if "c \<le> t" "t \<le> s" for t
    proof (cases "t = s")
      case True
      then show ?thesis using lt by (auto simp: b'_def)
    next
      case False
      with that have "t < s" by simp
      with inv that have "D b \<le> D t" by simp
      then show ?thesis using lt by (auto simp: b'_def)
    qed
    have above: "rate < drop_bit t p" if "c \<le> t" "t < b'" for t
      using inv that b'_bounds(2) by simp
    show ?thesis
    proof (cases "bd = 0 \<or> cur < rate")
      case stop: True
      have "D b' \<le> D t" if t: "c \<le> t" "t \<le> 3" for t
      proof (cases "t \<le> s")
        case True
        with t show ?thesis by (simp add: min_upto)
      next
        case False
        from stop show ?thesis
        proof
          assume "bd = 0"
          then have "D b' = 0" using bd by simp
          then show ?thesis by (simp add: D_def)
        next
          assume below: "cur < rate"
          from False have "drop_bit t p \<le> cur"
            unfolding cur_def by (intro drop_bit_word_mono) simp
          with below have "D s \<le> D t"
            by (simp add: D_def cur_def word_less_def word_le_def)
          moreover have "D b' \<le> D s" using b'_bounds(1,2) "1.prems"(1,2) True
            by (intro min_upto) (auto simp: b'_def)
          ultimately show ?thesis by simp
        qed
      qed
      with stop b'_bounds above br show ?thesis
        unfolding eq D_def by (intro exI [of _ b']) auto
    next
      case go: False
      then have nz: "bd \<noteq> 0" and ge: "rate \<le> cur" by auto
      have "cur \<noteq> rate"
      proof
        assume "cur = rate"
        then have "D s = 0" by (simp add: D_def cur_def)
        moreover have "D b \<noteq> 0" using Db "1.prems"(6,7)
          by (metis uint_0_iff right_minus_eq less_irrefl)
        moreover have "0 \<le> D b" by (simp add: D_def)
        ultimately have "D s < D b" by simp
        then have "bd = cur_diff" by (simp add: bd_def lt)
        with \<open>D s = 0\<close> Ds have "bd = 0" by (simp add: uint_0_iff)
        with nz show False by simp
      qed
      with ge have gt: "rate < cur" by simp
      have br_gt: "rate < br"
        using gt "1.prems"(6) by (simp add: br_def)
      have bd_eq: "bd = br - rate"
        using gt "1.prems"(7) by (auto simp: bd_def br_def cur_diff_def)
      have inv': "\<forall>t. c \<le> t \<and> t < s + 1 \<longrightarrow> rate < drop_bit t p \<and>
           \<bar>uint (drop_bit b' p) - uint rate\<bar> \<le> \<bar>uint (drop_bit t p) - uint rate\<bar>"
      proof (intro allI impI)
        fix t assume t: "c \<le> t \<and> t < s + 1"
        then have "t \<le> s" by simp
        with t have "D b' \<le> D t" by (simp add: min_upto)
        moreover have "rate < drop_bit t p"
        proof (cases "t = s")
          case True
          with gt show ?thesis by (simp add: cur_def)
        next
          case False
          with \<open>t \<le> s\<close> t inv show ?thesis by simp
        qed
        ultimately show "rate < drop_bit t p \<and>
           \<bar>uint (drop_bit b' p) - uint rate\<bar> \<le> \<bar>uint (drop_bit t p) - uint rate\<bar>"
          by (simp add: D_def)
      qed
      have "\<exists>k. c \<le> k \<and> k \<le> 3 \<and>
           round_rate_best p rate (s + 1) br bd = drop_bit k p \<and>
           (\<forall>t. c \<le> t \<and> t \<le> 3 \<longrightarrow>
              \<bar>uint (drop_bit k p) - uint rate\<bar> \<le> \<bar>uint (drop_bit t p) - uint rate\<bar>) \<and>
           (\<forall>t. c \<le> t \<and> t < k \<longrightarrow> rate < drop_bit t p)"
      proof (rule "1.IH" [OF True cur_def cur_diff_def])
        show "br = (if cur_diff < best_diff then cur else best_rate)" by (fact br_def)
        show "bd = (if cur_diff < best_diff then cur_diff else best_diff)" by (fact bd_def)
        show "\<not> (bd = 0 \<or> cur < rate)" by (fact go)
        show "c \<le> b'" by (fact b'_bounds(1))
        show "b' \<le> s + 1" using b'_bounds(2) by simp
        show "b' \<le> 3" by (fact b'_bounds(3))
        show "s + 1 \<le> 4" using True by simp
        show "br = drop_bit b' p" by (fact br)
        show "rate < br" by (fact br_gt)
        show "bd = br - rate" by (fact bd_eq)
        show "\<forall>t. c \<le> t \<and> t < s + 1 \<longrightarrow> rate < drop_bit t p \<and>
           \<bar>uint (drop_bit b' p) - uint rate\<bar> \<le> \<bar>uint (drop_bit t p) - uint rate\<bar>"
          by (fact inv')
      qed
      with go show ?thesis unfolding eq by simp
    qed
  qed
qed

lemma set_rate_loop_miss:
  fixes p rate :: "'l::len word"
  assumes "\<forall>t. s \<le> t \<and> t \<le> 3 \<longrightarrow> drop_bit t p \<noteq> rate"
  shows "set_rate_loop n rate p s = (- EINVAL, n)"
  using assms
proof (induction n rate p s rule: set_rate_loop.induct)
  case (1 n rate p s)
  show ?case
  proof (cases "s \<le> 3")
    case False
    then show ?thesis by (subst set_rate_loop.simps) simp
  next
    case True
    with "1.prems" have miss: "drop_bit s p \<noteq> rate" by simp
    from "1.prems" have "\<forall>t. s + 1 \<le> t \<and> t \<le> 3 \<longrightarrow> drop_bit t p \<noteq> rate" by simp
    with True miss have "set_rate_loop n rate p (s + 1) = (- EINVAL, n)"
      using "1.IH" by simp
    with True miss show ?thesis by (subst set_rate_loop.simps) simp
  qed
qed

lemma set_rate_loop_hit:
  fixes p rate :: "'l::len word"
  assumes "s \<le> k" "k \<le> 3" "drop_bit k p = rate"
    and "\<forall>t. s \<le> t \<and> t < k \<longrightarrow> drop_bit t p \<noteq> rate"
  shows "set_rate_loop n rate p s = (0, n\<lparr>auto_div := False, div_s := of_nat k\<rparr>)"
  using assms
proof (induction n rate p s rule: set_rate_loop.induct)
  case (1 n rate p s)
  from "1.prems"(1,2) have s3: "s \<le> 3" by simp
  show ?case
  proof (cases "s = k")
    case True
    with s3 "1.prems"(3) show ?thesis by (subst set_rate_loop.simps) simp
  next
    case False
    with "1.prems"(1) have lt: "s < k" by simp
    with "1.prems"(4) have miss: "drop_bit s p \<noteq> rate" by simp
    from "1.prems"(4) have "\<forall>t. s + 1 \<le> t \<and> t < k \<longrightarrow> drop_bit t p \<noteq> rate" by simp
    with s3 miss lt "1.prems"(2,3)
    have "set_rate_loop n rate p (s + 1) = (0, n\<lparr>auto_div := False, div_s := of_nat k\<rparr>)"
      using "1.IH" by simp
    with s3 miss show ?thesis by (subst set_rate_loop.simps) simp
  qed
qed

lemma round_rate_ceil_unique:
  fixes p m :: "'l::len word"
  assumes "c \<le> 3" and "drop_bit c p \<le> m" and "\<forall>t<c. \<not> drop_bit t p \<le> m"
  shows "round_rate_ceil p m 0 cur = (c, drop_bit c p)"
proof -
  define d where "d = fst (round_rate_ceil p m 0 cur)"
  have spec: "d \<le> 4" "\<forall>t. t < d \<longrightarrow> \<not> drop_bit t p \<le> m"
    "d \<le> 3 \<longrightarrow> snd (round_rate_ceil p m 0 cur) = drop_bit d p \<and> drop_bit d p \<le> m"
    using round_rate_ceil_spec [of 0 p m cur] by (simp_all add: d_def)
  have "\<not> c < d" using spec(2) assms(2) by auto
  moreover have "\<not> d < c"
  proof
    assume "d < c"
    with assms(1) spec(3) have "drop_bit d p \<le> m" by simp
    with \<open>d < c\<close> assms(3) show False by simp
  qed
  ultimately have "d = c" by simp
  with assms(1) spec(3) show ?thesis by (simp add: d_def prod_eq_iff)
qed

lemma least_shift_exists:
  fixes p m :: "'l::len word"
  assumes "drop_bit 3 p \<le> m"
  shows "\<exists>c\<le>3. drop_bit c p \<le> m \<and> (\<forall>t<c. \<not> drop_bit t p \<le> m)"
proof -
  define c where "c = (LEAST t. drop_bit t p \<le> m)"
  have "drop_bit c p \<le> m" unfolding c_def using assms by (rule LeastI)
  moreover have "c \<le> 3" unfolding c_def using assms by (rule Least_le)
  moreover have "\<forall>t<c. \<not> drop_bit t p \<le> m"
    unfolding c_def using not_less_Least by blast
  ultimately show ?thesis by blast
qed

lemma round_rate_from_ceiling:
  fixes periph :: "('h, 'l::len) clk_sam9x5_peripheral"
  assumes node: "PERIPHERAL_ID_MIN \<le> id_s periph" "max_r (range_s periph) \<noteq> 0"
    and ceil: "c \<le> 3" "drop_bit c parent_rate \<le> max_r (range_s periph)"
      "\<forall>t<c. \<not> drop_bit t parent_rate \<le> max_r (range_s periph)"
  shows "(drop_bit c parent_rate \<le> rate \<longrightarrow>
            clk_sam9x5_peripheral_round_rate periph rate parent_rate = drop_bit c parent_rate) \<and>
         (rate < drop_bit c parent_rate \<longrightarrow>
            (\<exists>k. c \<le> k \<and> k \<le> 3 \<and>
               clk_sam9x5_peripheral_round_rate periph rate parent_rate = drop_bit k parent_rate \<and>
               (\<forall>t. c \<le> t \<and> t \<le> 3 \<longrightarrow>
                  \<bar>uint (drop_bit k parent_rate) - uint rate\<bar>
                    \<le> \<bar>uint (drop_bit t parent_rate) - uint rate\<bar>) \<and>
               (\<forall>t. c \<le> t \<and> t < k \<longrightarrow> rate < drop_bit t parent_rate)))"
proof -
  have id: "\<not> id_s periph < PERIPHERAL_ID_MIN" using node(1) by (simp add: not_less)
  have c: "round_rate_ceil parent_rate (max_r (range_s periph)) 0 parent_rate
             = (c, drop_bit c parent_rate)"
    using ceil by (rule round_rate_ceil_unique)
  have rr: "clk_sam9x5_peripheral_round_rate periph rate parent_rate =
      (if drop_bit c parent_rate \<le> rate then drop_bit c parent_rate
       else round_rate_best parent_rate rate c (drop_bit c parent_rate)
              (drop_bit c parent_rate - rate))"
    using id node(2) by (simp add: clk_sam9x5_peripheral_round_rate_def c)
  show ?thesis
  proof (intro conjI impI)
    assume "drop_bit c parent_rate \<le> rate"
    then show "clk_sam9x5_peripheral_round_rate periph rate parent_rate = drop_bit c parent_rate"
      by (simp add: rr)
  next
    assume lt: "rate < drop_bit c parent_rate"
    then have "\<not> drop_bit c parent_rate \<le> rate" by (simp add: not_le)
    then have rr': "clk_sam9x5_peripheral_round_rate periph rate parent_rate =
       round_rate_best parent_rate rate c (drop_bit c parent_rate) (drop_bit c parent_rate - rate)"
      unfolding rr by (rule if_not_P)
    show "\<exists>k. c \<le> k \<and> k \<le> 3 \<and>
               clk_sam9x5_peripheral_round_rate periph rate parent_rate = drop_bit k parent_rate \<and>
               (\<forall>t. c \<le> t \<and> t \<le> 3 \<longrightarrow>
                  \<bar>uint (drop_bit k parent_rate) - uint rate\<bar>
                    \<le> \<bar>uint (drop_bit t parent_rate) - uint rate\<bar>) \<and>
               (\<forall>t. c \<le> t \<and> t < k \<longrightarrow> rate < drop_bit t parent_rate)"
      unfolding rr'
      using ceil(1) lt by (intro round_rate_best_spec [where b = c]) simp_all
  qed
qed

lemma least_match_exists:
  fixes p rate :: "'l::len word"
  assumes "s \<le> 3" and "drop_bit s p = rate"
  shows "\<exists>k\<le>3. drop_bit k p = rate \<and> (\<forall>t<k. drop_bit t p \<noteq> rate)"
proof -
  define k where "k = (LEAST t. drop_bit t p = rate)"
  have "drop_bit k p = rate" unfolding k_def using assms(2) by (rule LeastI)
  moreover have "k \<le> s" unfolding k_def using assms(2) by (rule Least_le)
  moreover have "\<forall>t<k. drop_bit t p \<noteq> rate"
    unfolding k_def using not_less_Least by blast
  ultimately show ?thesis using assms(1) by (intro exI [of _ k]) simp
qed

lemma set_rate_fixed:
  fixes periph :: "('h, 'l::len) clk_sam9x5_peripheral"
  assumes "id_s periph < PERIPHERAL_ID_MIN \<or> max_r (range_s periph) = 0"
  shows "clk_sam9x5_peripheral_set_rate periph rate parent_rate =
           (if parent_rate = rate then (0, periph) else (- EINVAL, periph))"
  using assms by (simp add: clk_sam9x5_peripheral_set_rate_def)

lemma set_rate_above_max:
  fixes periph :: "('h, 'l::len) clk_sam9x5_peripheral"
  assumes "\<not> (id_s periph < PERIPHERAL_ID_MIN \<or> max_r (range_s periph) = 0)"
    and "max_r (range_s periph) < rate"
  shows "clk_sam9x5_peripheral_set_rate periph rate parent_rate = (- EINVAL, periph)"
  using assms by (simp add: clk_sam9x5_peripheral_set_rate_def)

lemma set_rate_search:
  fixes periph :: "('h, 'l::len) clk_sam9x5_peripheral"
  assumes "\<not> (id_s periph < PERIPHERAL_ID_MIN \<or> max_r (range_s periph) = 0)"
    and "rate \<le> max_r (range_s periph)"
  shows "clk_sam9x5_peripheral_set_rate periph rate parent_rate =
           set_rate_loop periph rate parent_rate 0"
proof -
  have a: "(id_s periph < PERIPHERAL_ID_MIN \<or> max_r (range_s periph) = 0) = False"
    using assms(1) by simp
  have b: "(max_r (range_s periph) \<noteq> 0 \<and> max_r (range_s periph) < rate) = False"
    using assms(2) by (simp add: not_less)
  show ?thesis unfolding clk_sam9x5_peripheral_set_rate_def a b by simp
qed

lemma set_rate_ranged:
  fixes periph :: "('h, 'l::len) clk_sam9x5_peripheral"
  assumes "\<not> (id_s periph < PERIPHERAL_ID_MIN \<or> max_r (range_s periph) = 0)"
    and "rate \<le> max_r (range_s periph)"
  shows "((\<exists>s\<le>3. drop_bit s parent_rate = rate) \<longrightarrow>
            (\<exists>k\<le>3. drop_bit k parent_rate = rate \<and>
                   (\<forall>t<k. drop_bit t parent_rate \<noteq> rate) \<and>
                   clk_sam9x5_peripheral_set_rate periph rate parent_rate =
                     (0, periph\<lparr>auto_div := False, div_s := of_nat k\<rparr>))) \<and>
         ((\<forall>s\<le>3. drop_bit s parent_rate \<noteq> rate) \<longrightarrow>
            clk_sam9x5_peripheral_set_rate periph rate parent_rate = (- EINVAL, periph))"
proof (intro conjI impI)
  note eq = set_rate_search [OF assms]
  assume "\<exists>s\<le>3. drop_bit s parent_rate = rate"
  then obtain k where k: "k \<le> 3" "drop_bit k parent_rate = rate"
      "\<forall>t<k. drop_bit t parent_rate \<noteq> rate"
    using least_match_exists by blast
  then have "set_rate_loop periph rate parent_rate 0 =
      (0, periph\<lparr>auto_div := False, div_s := of_nat k\<rparr>)"
    by (intro set_rate_loop_hit) simp_all
  with k show "\<exists>k\<le>3. drop_bit k parent_rate = rate \<and>
                   (\<forall>t<k. drop_bit t parent_rate \<noteq> rate) \<and>
                   clk_sam9x5_peripheral_set_rate periph rate parent_rate =
                     (0, periph\<lparr>auto_div := False, div_s := of_nat k\<rparr>)"
    unfolding eq by blast
next
  note eq = set_rate_search [OF assms]
  assume "\<forall>s\<le>3. drop_bit s parent_rate \<noteq> rate"
  then have "set_rate_loop periph rate parent_rate 0 = (- EINVAL, periph)"
    by (intro set_rate_loop_miss) simp
  then show "clk_sam9x5_peripheral_set_rate periph rate parent_rate = (- EINVAL, periph)"
    unfolding eq .
qed

lemma set_rate_result:
  fixes periph :: "('h, 'l::len) clk_sam9x5_peripheral"
  shows "clk_sam9x5_peripheral_set_rate periph rate parent_rate = (- EINVAL, periph) \<or>
         (\<exists>d. clk_sam9x5_peripheral_set_rate periph rate parent_rate =
                (0, periph\<lparr>auto_div := False, div_s := d\<rparr>)) \<or>
         clk_sam9x5_peripheral_set_rate periph rate parent_rate = (0, periph)"
proof (cases "id_s periph < PERIPHERAL_ID_MIN \<or> max_r (range_s periph) = 0")
  case True
  then show ?thesis by (simp add: set_rate_fixed)
next
  case ranged: False
  show ?thesis
  proof (cases "rate \<le> max_r (range_s periph)")
    case False
    with ranged show ?thesis by (simp add: set_rate_above_max not_le)
  next
    case True
    from set_rate_ranged [OF ranged True, of parent_rate] show ?thesis by blast
  qed
qed

lemma autodiv_keeps_cleared:
  fixes periph :: "('h, 'l::len) clk_sam9x5_peripheral"
  shows "\<not> auto_div periph \<Longrightarrow> \<not> auto_div (clk_sam9x5_peripheral_autodiv periph core_rate)"
  by (simp add: clk_sam9x5_peripheral_autodiv_def)

lemma recalc_rate_keeps_cleared:
  fixes periph :: "('h, 'l::len) clk_sam9x5_peripheral"
  shows "\<not> auto_div periph \<Longrightarrow>
    \<not> auto_div (fst (snd (clk_sam9x5_peripheral_recalc_rate periph parent_rate core_rate h)))"
  by (simp add: clk_sam9x5_peripheral_recalc_rate_def Let_def autodiv_keeps_cleared
      split: prod.split)

lemma set_rate_keeps_cleared:
  fixes periph :: "('h, 'l::len) clk_sam9x5_peripheral"
  assumes "\<not> auto_div periph"
  shows "\<not> auto_div (snd (clk_sam9x5_peripheral_set_rate periph rate parent_rate))"
  using set_rate_result [of periph rate parent_rate] assms by auto

lemma run_op_keeps_cleared:
  fixes periph :: "('h, 'l::len) clk_sam9x5_peripheral"
  assumes "\<not> auto_div periph"
  shows "\<not> auto_div (fst (run_op x (periph, h)))"
proof (cases x)
  case (Op_recalc_rate parent_rate core_rate)
  with assms show ?thesis
    using recalc_rate_keeps_cleared [of periph parent_rate core_rate h] by simp
next
  case (Op_set_rate rate parent_rate)
  with assms show ?thesis by (simp add: set_rate_keeps_cleared)
next
  case (Op_autodiv core_rate)
  with assms show ?thesis by (simp add: autodiv_keeps_cleared)
qed (use assms in simp_all)

lemma PERIPHERAL_MASK_nonzero: "PERIPHERAL_MASK i \<noteq> 0"
proof -
  have "i AND PERIPHERAL_ID_MAX \<le> PERIPHERAL_ID_MAX" by (rule word_and_le1)
  then have "unat (i AND PERIPHERAL_ID_MAX) \<le> 31" by (simp add: word_le_nat_alt)
  then have "unat (i AND PERIPHERAL_ID_MAX) < 32" by simp
  then have "push_bit (unat (i AND PERIPHERAL_ID_MAX)) (1 :: u32) \<noteq> 0" by simp
  then show ?thesis unfolding PERIPHERAL_MASK_def .
qed

lemma mask_set_test: "(x OR m) AND m = (m :: u32)"
  by (simp add: bit_eq_iff bit_and_iff bit_or_iff)

lemma mask_clear_test: "(x AND NOT m) AND m = (0 :: u32)"
  by (auto simp: bit_eq_iff bit_and_iff bit_not_iff)

lemma pmc_mock_sets:
  "fst (regmap_read pmc_mock_regmap AT91_PMC_PCSR
          (regmap_write pmc_mock_regmap AT91_PMC_PCER val h))
     = fst (regmap_read pmc_mock_regmap AT91_PMC_PCSR h) OR val"
  by (simp add: pmc_mock_regmap_def pmc_mock_read_def pmc_mock_write_def)

lemma pmc_mock_clears:
  "fst (regmap_read pmc_mock_regmap AT91_PMC_PCSR
          (regmap_write pmc_mock_regmap AT91_PMC_PCDR val h))
     = fst (regmap_read pmc_mock_regmap AT91_PMC_PCSR h) AND NOT val"
  by (simp add: pmc_mock_regmap_def pmc_mock_read_def pmc_mock_write_def
      AT91_PMC_PCER_def AT91_PMC_PCDR_def)

lemma autodiv_cases:
  fixes periph :: "('h, 'l::len) clk_sam9x5_peripheral"
  shows "(\<not> auto_div periph \<longrightarrow> clk_sam9x5_peripheral_autodiv periph core_rate = periph) \<and>
         (auto_div periph \<and> max_r (range_s periph) = 0 \<longrightarrow>
            clk_sam9x5_peripheral_autodiv periph core_rate
              = periph\<lparr>auto_div := False, div_s := 0\<rparr>) \<and>
         (auto_div periph \<and> max_r (range_s periph) \<noteq> 0 \<and> core_rate = 0 \<longrightarrow>
            clk_sam9x5_peripheral_autodiv periph core_rate = periph) \<and>
         (auto_div periph \<and> max_r (range_s periph) \<noteq> 0 \<and> core_rate \<noteq> 0 \<longrightarrow>
            (\<exists>d\<le>3. (\<forall>t<d. \<not> drop_bit t core_rate \<le> max_r (range_s periph)) \<and>
                   (drop_bit d core_rate \<le> max_r (range_s periph) \<or> d = 3) \<and>
                   clk_sam9x5_peripheral_autodiv periph core_rate
                     = periph\<lparr>auto_div := False, div_s := of_nat d\<rparr>))"
proof (intro conjI impI)
  assume a: "auto_div periph \<and> max_r (range_s periph) \<noteq> 0 \<and> core_rate \<noteq> 0"
  define d where "d = autodiv_loop core_rate (max_r (range_s periph)) 0"
  have spec: "d \<le> 3" "\<forall>t<d. \<not> drop_bit t core_rate \<le> max_r (range_s periph)"
    "d < 3 \<longrightarrow> drop_bit d core_rate \<le> max_r (range_s periph)"
    unfolding d_def using autodiv_loop_spec [of 0 core_rate "max_r (range_s periph)"]
    by simp_all
  have res: "clk_sam9x5_peripheral_autodiv periph core_rate
               = periph\<lparr>auto_div := False, div_s := of_nat d\<rparr>"
    using a by (simp add: clk_sam9x5_peripheral_autodiv_def d_def)
  from spec(1,3) have "drop_bit d core_rate \<le> max_r (range_s periph) \<or> d = 3" by auto
  with spec(1,2) res
  show "\<exists>d\<le>3. (\<forall>t<d. \<not> drop_bit t core_rate \<le> max_r (range_s periph)) \<and>
                   (drop_bit d core_rate \<le> max_r (range_s periph) \<or> d = 3) \<and>
                   clk_sam9x5_peripheral_autodiv periph core_rate
                     = periph\<lparr>auto_div := False, div_s := of_nat d\<rparr>"
    by (intro exI [of _ d]) simp
qed (simp_all add: clk_sam9x5_peripheral_autodiv_def)

subsection \<open>Divider resolution\<close>

text \<open>
  Claim C6. Auto-division resolution on a node whose auto-divider flag is set and whose
  range has a maximum: with the parent rate 0 it returns the node as it is, flag still
  set and divider unchanged, and the next invocation with a parent rate other than 0
  completes the resolution, after which further invocations change nothing. With a
  parent rate \<open>p\<close> other than 0 it stores as divider the smallest shift \<open>d\<close> in 0..3 with
  \<open>p >> d \<le> max\<close>, or 3 if no shift in 0..3 satisfies this, and clears the flag.
\<close>

theorem autodiv_resolution:
  fixes periph :: "('h, 'l::len) clk_sam9x5_peripheral"
  assumes "auto_div periph" and "max_r (range_s periph) \<noteq> 0"
  shows "clk_sam9x5_peripheral_autodiv periph 0 = periph \<and>
         (p \<noteq> 0 \<longrightarrow>
           (\<exists>d. d \<le> 3 \<and>
                (\<forall>t<d. \<not> drop_bit t p \<le> max_r (range_s periph)) \<and>
                (drop_bit d p \<le> max_r (range_s periph) \<or>
                 d = 3 \<and> (\<forall>t\<le>3. \<not> drop_bit t p \<le> max_r (range_s periph))) \<and>
                clk_sam9x5_peripheral_autodiv periph p
                  = periph\<lparr>auto_div := False, div_s := of_nat d\<rparr> \<and>
                clk_sam9x5_peripheral_autodiv (clk_sam9x5_peripheral_autodiv periph 0) p
                  = periph\<lparr>auto_div := False, div_s := of_nat d\<rparr> \<and>
                (\<forall>q. clk_sam9x5_peripheral_autodiv
                       (clk_sam9x5_peripheral_autodiv
                          (clk_sam9x5_peripheral_autodiv periph 0) p) q
                  = clk_sam9x5_peripheral_autodiv (clk_sam9x5_peripheral_autodiv periph 0) p)))"
proof (intro conjI impI)
  show first: "clk_sam9x5_peripheral_autodiv periph 0 = periph"
    using assms by (simp add: clk_sam9x5_peripheral_autodiv_def)
  assume nz: "p \<noteq> 0"
  define d where "d = autodiv_loop p (max_r (range_s periph)) 0"
  have spec: "d \<le> 3 \<and> (\<forall>t. 0 \<le> t \<and> t < d \<longrightarrow> \<not> drop_bit t p \<le> max_r (range_s periph)) \<and>
              (d < 3 \<longrightarrow> drop_bit d p \<le> max_r (range_s periph))"
    unfolding d_def using autodiv_loop_spec [of 0 p "max_r (range_s periph)"] by simp
  have res: "clk_sam9x5_peripheral_autodiv periph p = periph\<lparr>auto_div := False, div_s := of_nat d\<rparr>"
    using assms nz by (simp add: clk_sam9x5_peripheral_autodiv_def d_def)
  have once: "clk_sam9x5_peripheral_autodiv (periph\<lparr>auto_div := False, div_s := of_nat d\<rparr>) q
                = periph\<lparr>auto_div := False, div_s := of_nat d\<rparr>" for q
    by (simp add: clk_sam9x5_peripheral_autodiv_def)
  have tail: "drop_bit d p \<le> max_r (range_s periph) \<or>
                 d = 3 \<and> (\<forall>t\<le>3. \<not> drop_bit t p \<le> max_r (range_s periph))"
  proof (cases "drop_bit d p \<le> max_r (range_s periph)")
    case True
    then show ?thesis by simp
  next
    case False
    with spec have d3: "d = 3" by auto
    have "\<not> drop_bit t p \<le> max_r (range_s periph)" if "t \<le> 3" for t
      using that spec False d3 by (cases "t = 3") auto
    with d3 show ?thesis by simp
  qed
  show "\<exists>d. d \<le> 3 \<and>
                (\<forall>t<d. \<not> drop_bit t p \<le> max_r (range_s periph)) \<and>
                (drop_bit d p \<le> max_r (range_s periph) \<or>
                 d = 3 \<and> (\<forall>t\<le>3. \<not> drop_bit t p \<le> max_r (range_s periph))) \<and>
                clk_sam9x5_peripheral_autodiv periph p
                  = periph\<lparr>auto_div := False, div_s := of_nat d\<rparr> \<and>
                clk_sam9x5_peripheral_autodiv (clk_sam9x5_peripheral_autodiv periph 0) p
                  = periph\<lparr>auto_div := False, div_s := of_nat d\<rparr> \<and>
                (\<forall>q. clk_sam9x5_peripheral_autodiv
                       (clk_sam9x5_peripheral_autodiv
                          (clk_sam9x5_peripheral_autodiv periph 0) p) q
                  = clk_sam9x5_peripheral_autodiv (clk_sam9x5_peripheral_autodiv periph 0) p)"
    using spec tail res once unfolding first by (intro exI [of _ d]) simp
qed

text \<open>
  The node of the examples, with maximum 83 MHz: the parent rate 0 leaves it unresolved,
  then the parent rate 133 MHz resolves the divider to 1.
\<close>

theorem autodiv_resolution_witness:
  "auto_div example_periph \<and> max_r (range_s example_periph) \<noteq> 0 \<and>
   clk_sam9x5_peripheral_autodiv example_periph 0 = example_periph \<and>
   clk_sam9x5_peripheral_autodiv (clk_sam9x5_peripheral_autodiv example_periph 0) 133000000
     = example_periph\<lparr>auto_div := False, div_s := 1\<rparr>"
proof -
  have a: "auto_div example_periph" by (simp add: example_periph_def)
  have m: "max_r (range_s example_periph) \<noteq> 0" by (simp add: example_periph_def)
  have r: "clk_sam9x5_peripheral_autodiv example_periph 133000000
             = example_periph\<lparr>auto_div := False, div_s := 1\<rparr>"
    by (simp add: clk_sam9x5_peripheral_autodiv_def example_periph_def autodiv_loop.simps)
  from autodiv_resolution [OF a m, of 133000000] a m r show ?thesis by simp
qed

subsection \<open>Rounding a rate\<close>

text \<open>
  Claim C1. For every indirectly addressed node with id at least 2 and a range maximum
  other than 0, and for every target rate and parent rate, round-rate returns a rate
  that does not exceed the maximum. The code does not keep this where no shift in 0..3
  brings the parent rate within the range: with parent rate 133 MHz and maximum 10 MHz
  the candidates are 133, 66.5, 33.25 and 16.625 MHz, the first loop leaves its bound
  without a candidate within the maximum, and round-rate returns 16.625 MHz for the
  target 10 MHz. Set-rate on the same node refuses that very rate with
  invalid-argument, because it exceeds the maximum.
\<close>

theorem round_rate_exceeds_max:
  "id_s (example_periph\<lparr>range_s := \<lparr>min_r = 0, max_r = 10000000\<rparr>\<rparr>) = 5 \<and>
   max_r (range_s (example_periph\<lparr>range_s := \<lparr>min_r = 0, max_r = 10000000\<rparr>\<rparr>)) = 10000000 \<and>
   clk_sam9x5_peripheral_round_rate
     (example_periph\<lparr>range_s := \<lparr>min_r = 0, max_r = 10000000\<rparr>\<rparr>) 10000000 133000000 = 16625000 \<and>
   \<not> clk_sam9x5_peripheral_round_rate
     (example_periph\<lparr>range_s := \<lparr>min_r = 0, max_r = 10000000\<rparr>\<rparr>) 10000000 133000000
       \<le> max_r (range_s (example_periph\<lparr>range_s := \<lparr>min_r = 0, max_r = 10000000\<rparr>\<rparr>)) \<and>
   clk_sam9x5_peripheral_set_rate
     (example_periph\<lparr>range_s := \<lparr>min_r = 0, max_r = 10000000\<rparr>\<rparr>) 16625000 133000000
     = (- EINVAL, example_periph\<lparr>range_s := \<lparr>min_r = 0, max_r = 10000000\<rparr>\<rparr>)"
  by (simp add: clk_sam9x5_peripheral_round_rate_def clk_sam9x5_peripheral_set_rate_def
      example_periph_def round_rate_ceil.simps round_rate_best.simps)

text \<open>
  Where the parent rate shifted right by 3, the lowest rate the divider can produce, is
  within the maximum, the result of round-rate is within the maximum, both as the
  unsigned value computed and as the signed \<open>long\<close> returned.
\<close>

lemma round_rate_bounded:
  fixes periph :: "('h, 'l::len) clk_sam9x5_peripheral"
  assumes "PERIPHERAL_ID_MIN \<le> id_s periph" and "max_r (range_s periph) \<noteq> 0"
    and reach: "drop_bit 3 parent_rate \<le> max_r (range_s periph)"
  shows "clk_sam9x5_peripheral_round_rate periph rate parent_rate \<le> max_r (range_s periph) \<and>
         sint (clk_sam9x5_peripheral_round_rate periph rate parent_rate)
           \<le> uint (max_r (range_s periph))"
proof -
  from reach obtain c where c: "c \<le> 3" "drop_bit c parent_rate \<le> max_r (range_s periph)"
      "\<forall>t<c. \<not> drop_bit t parent_rate \<le> max_r (range_s periph)"
    using least_shift_exists by blast
  note rr = round_rate_from_ceiling [OF assms(1,2) c, of rate]
  have within: "clk_sam9x5_peripheral_round_rate periph rate parent_rate \<le> max_r (range_s periph)"
  proof (cases "drop_bit c parent_rate \<le> rate")
    case True
    with rr c(2) show ?thesis by simp
  next
    case False
    with rr obtain k where k: "c \<le> k"
        "clk_sam9x5_peripheral_round_rate periph rate parent_rate = drop_bit k parent_rate"
      by (auto simp: not_le)
    from k(1) have "drop_bit k parent_rate \<le> drop_bit c parent_rate"
      by (rule drop_bit_word_mono)
    with k(2) c(2) show ?thesis by simp
  qed
  have "sint (clk_sam9x5_peripheral_round_rate periph rate parent_rate)
          \<le> uint (clk_sam9x5_peripheral_round_rate periph rate parent_rate)"
    by (rule sint_le_uint)
  also from within have "\<dots> \<le> uint (max_r (range_s periph))" by (simp add: word_le_def)
  finally show ?thesis using within by simp
qed

text \<open>
  Claim C2. For every indirectly addressed node with id at least 2 and a range maximum,
  the candidates of round-rate are the parent rate shifted right by 0..3, and the
  ceiling candidate is the one at the smallest shift \<open>c\<close> whose candidate is within the
  maximum. If the target is at least the ceiling candidate, round-rate returns the
  ceiling candidate. Otherwise it returns the candidate at a shift \<open>k\<close> from \<open>c\<close> to 3
  whose absolute difference to the target is minimal among the shifts from \<open>c\<close> to 3,
  and the search has stopped there: every candidate before \<open>k\<close> is strictly above the
  target, so none is an exact match or below the target. In particular, with parent
  rate 133000000, maximum 83000000 and target 70000000 the result is 66500000.
\<close>

theorem round_rate_algorithm:
  fixes periph :: "('h, 'l::len) clk_sam9x5_peripheral"
  assumes "PERIPHERAL_ID_MIN \<le> id_s periph" and "max_r (range_s periph) \<noteq> 0"
    and "c \<le> PERIPHERAL_MAX_SHIFT" and "drop_bit c parent_rate \<le> max_r (range_s periph)"
    and "\<forall>t<c. \<not> drop_bit t parent_rate \<le> max_r (range_s periph)"
  shows "(drop_bit c parent_rate \<le> rate \<longrightarrow>
            clk_sam9x5_peripheral_round_rate periph rate parent_rate = drop_bit c parent_rate) \<and>
         (rate < drop_bit c parent_rate \<longrightarrow>
            (\<exists>k. c \<le> k \<and> k \<le> PERIPHERAL_MAX_SHIFT \<and>
               clk_sam9x5_peripheral_round_rate periph rate parent_rate = drop_bit k parent_rate \<and>
               (\<forall>t. c \<le> t \<and> t \<le> PERIPHERAL_MAX_SHIFT \<longrightarrow>
                  \<bar>uint (drop_bit k parent_rate) - uint rate\<bar>
                    \<le> \<bar>uint (drop_bit t parent_rate) - uint rate\<bar>) \<and>
               (\<forall>t. c \<le> t \<and> t < k \<longrightarrow> rate < drop_bit t parent_rate))) \<and>
         clk_sam9x5_peripheral_round_rate example_periph 70000000 133000000 = 66500000"
proof -
  have "clk_sam9x5_peripheral_round_rate example_periph 70000000 133000000 = 66500000"
    by (simp add: clk_sam9x5_peripheral_round_rate_def example_periph_def
        round_rate_ceil.simps round_rate_best.simps)
  with round_rate_from_ceiling [OF assms, of rate] show ?thesis by simp
qed

text \<open>
  On the node of the examples the ceiling shift is 1. The target 70 MHz is above the
  ceiling candidate 66.5 MHz; the target 40 MHz is below it and is rounded to 33.25 MHz.
\<close>

theorem round_rate_algorithm_witness:
  "PERIPHERAL_ID_MIN \<le> id_s example_periph \<and> max_r (range_s example_periph) = 83000000 \<and>
   \<not> drop_bit 0 (133000000 :: 32 word) \<le> 83000000 \<and>
   drop_bit 1 (133000000 :: 32 word) = 66500000 \<and>
   clk_sam9x5_peripheral_round_rate example_periph 70000000 133000000 = 66500000 \<and>
   clk_sam9x5_peripheral_round_rate example_periph 40000000 133000000 = 33250000"
proof -
  have i: "PERIPHERAL_ID_MIN \<le> id_s example_periph" by (simp add: example_periph_def)
  have m: "max_r (range_s example_periph) \<noteq> 0" by (simp add: example_periph_def)
  have c: "drop_bit 1 (133000000 :: 32 word) \<le> max_r (range_s example_periph)"
    by (simp add: example_periph_def)
  have l: "\<forall>t<1. \<not> drop_bit t (133000000 :: 32 word) \<le> max_r (range_s example_periph)"
    by (simp add: example_periph_def)
  have r: "clk_sam9x5_peripheral_round_rate example_periph 40000000 133000000 = 33250000"
    by (simp add: clk_sam9x5_peripheral_round_rate_def example_periph_def
        round_rate_ceil.simps round_rate_best.simps)
  from round_rate_algorithm [OF i m _ c l, of 70000000] r show ?thesis
    by (simp add: example_periph_def)
qed

subsection \<open>Setting a rate\<close>

text \<open>
  Claim C3, as amended. For every indirectly addressed node and every requested rate
  and parent rate, set-rate succeeds if and only if either the id is below 2 or no
  range maximum is configured, and the requested rate equals the parent rate; or the id
  is at least 2 and a range maximum is configured, the requested rate does not exceed
  the maximum, and the parent rate shifted right by some integer in 0..3 (divided by
  that power of two) equals the requested rate. In every other case it fails with
  invalid-argument.
\<close>

theorem set_rate_succeeds_iff:
  fixes periph :: "('h, 'l::len) clk_sam9x5_peripheral"
  shows "(fst (clk_sam9x5_peripheral_set_rate periph rate parent_rate) = 0 \<longleftrightarrow>
            (if id_s periph < PERIPHERAL_ID_MIN \<or> max_r (range_s periph) = 0
             then rate = parent_rate
             else rate \<le> max_r (range_s periph) \<and>
                  (\<exists>s\<le>PERIPHERAL_MAX_SHIFT. drop_bit s parent_rate = rate))) \<and>
         (fst (clk_sam9x5_peripheral_set_rate periph rate parent_rate) \<noteq> 0 \<longrightarrow>
            fst (clk_sam9x5_peripheral_set_rate periph rate parent_rate) = - EINVAL)"
proof (cases "id_s periph < PERIPHERAL_ID_MIN \<or> max_r (range_s periph) = 0")
  case True
  then show ?thesis by (auto simp: set_rate_fixed EINVAL_def)
next
  case ranged: False
  show ?thesis
  proof (cases "rate \<le> max_r (range_s periph)")
    case False
    with ranged show ?thesis by (simp add: set_rate_above_max not_le EINVAL_def)
  next
    case True
    note search = set_rate_ranged [OF ranged True, of parent_rate]
    show ?thesis
    proof (cases "\<exists>s\<le>3. drop_bit s parent_rate = rate")
      case hit: True
      with search have "fst (clk_sam9x5_peripheral_set_rate periph rate parent_rate) = 0"
        by auto
      with ranged True hit show ?thesis by simp
    next
      case miss: False
      with search have "fst (clk_sam9x5_peripheral_set_rate periph rate parent_rate) = - EINVAL"
        by simp
      with ranged True miss show ?thesis by (simp add: EINVAL_def)
    qed
  qed
qed

text \<open>
  With parent rate 133 MHz and maximum 83 MHz the rate 16.625 MHz is the parent rate
  shifted by 3 and is accepted.
\<close>

theorem set_rate_succeeds_iff_witness:
  "\<not> (id_s example_periph < PERIPHERAL_ID_MIN \<or> max_r (range_s example_periph) = 0) \<and>
   (16625000 :: 32 word) \<le> max_r (range_s example_periph) \<and>
   drop_bit 3 (133000000 :: 32 word) = 16625000 \<and>
   fst (clk_sam9x5_peripheral_set_rate example_periph 16625000 133000000) = 0"
proof -
  have n: "\<not> (id_s example_periph < PERIPHERAL_ID_MIN \<or> max_r (range_s example_periph) = 0)"
    by (simp add: example_periph_def)
  have r: "(16625000 :: 32 word) \<le> max_r (range_s example_periph)"
    by (simp add: example_periph_def)
  have d: "drop_bit 3 (133000000 :: 32 word) = 16625000" by simp
  then have e: "\<exists>s\<le>PERIPHERAL_MAX_SHIFT. drop_bit s (133000000 :: 32 word) = 16625000"
    by (intro exI [of _ 3]) simp
  from set_rate_succeeds_iff [of example_periph 16625000 133000000] n r e
  have "fst (clk_sam9x5_peripheral_set_rate example_periph 16625000 133000000) = 0"
    by simp
  with n r d show ?thesis by simp
qed

text \<open>
  The claim as first stated, that with a range constraint a match at some shift is
  enough, fails for a rate above the maximum: 133 MHz is the parent rate 133 MHz at
  shift 0, and it is rejected because it exceeds 83 MHz.
\<close>

theorem set_rate_shift_match_rejected:
  "id_s example_periph = 5 \<and> max_r (range_s example_periph) = 83000000 \<and>
   drop_bit 0 (133000000 :: 32 word) = 133000000 \<and>
   fst (clk_sam9x5_peripheral_set_rate example_periph 133000000 133000000) = - EINVAL \<and>
   - EINVAL \<noteq> 0"
  by (simp add: clk_sam9x5_peripheral_set_rate_def example_periph_def EINVAL_def)

text \<open>
  Claim C4. For every indirectly addressed node: when the id is below 2 or no range
  maximum is configured, set-rate succeeds exactly when the target rate equals the
  parent rate and fails with invalid-argument otherwise. When a range maximum governs
  the node, set-rate fails with invalid-argument if the target exceeds the maximum;
  otherwise it succeeds exactly when the parent rate shifted right by some shift in
  0..3 equals the target, and on success it stores the first such shift as divider and
  clears the auto-divider flag. Failure, \<open>-EINVAL\<close>, differs from success, 0.
\<close>

theorem set_rate_behaviour:
  fixes periph :: "('h, 'l::len) clk_sam9x5_peripheral"
  shows "(id_s periph < PERIPHERAL_ID_MIN \<or> max_r (range_s periph) = 0 \<longrightarrow>
            (rate = parent_rate \<longrightarrow>
               fst (clk_sam9x5_peripheral_set_rate periph rate parent_rate) = 0) \<and>
            (rate \<noteq> parent_rate \<longrightarrow>
               fst (clk_sam9x5_peripheral_set_rate periph rate parent_rate) = - EINVAL)) \<and>
         (\<not> (id_s periph < PERIPHERAL_ID_MIN \<or> max_r (range_s periph) = 0) \<longrightarrow>
            (max_r (range_s periph) < rate \<longrightarrow>
               fst (clk_sam9x5_peripheral_set_rate periph rate parent_rate) = - EINVAL) \<and>
            (rate \<le> max_r (range_s periph) \<longrightarrow>
               ((\<exists>s\<le>PERIPHERAL_MAX_SHIFT. drop_bit s parent_rate = rate) \<longrightarrow>
                  (\<exists>k\<le>PERIPHERAL_MAX_SHIFT. drop_bit k parent_rate = rate \<and>
                     (\<forall>t<k. drop_bit t parent_rate \<noteq> rate) \<and>
                     clk_sam9x5_peripheral_set_rate periph rate parent_rate =
                       (0, periph\<lparr>auto_div := False, div_s := of_nat k\<rparr>))) \<and>
               ((\<forall>s\<le>PERIPHERAL_MAX_SHIFT. drop_bit s parent_rate \<noteq> rate) \<longrightarrow>
                  fst (clk_sam9x5_peripheral_set_rate periph rate parent_rate) = - EINVAL))) \<and>
         - EINVAL \<noteq> 0"
proof (intro conjI impI)
  show "- EINVAL \<noteq> 0" by (simp add: EINVAL_def)
next
  assume "id_s periph < PERIPHERAL_ID_MIN \<or> max_r (range_s periph) = 0" "rate = parent_rate"
  then show "fst (clk_sam9x5_peripheral_set_rate periph rate parent_rate) = 0"
    by (simp add: set_rate_fixed)
next
  assume "id_s periph < PERIPHERAL_ID_MIN \<or> max_r (range_s periph) = 0" "rate \<noteq> parent_rate"
  then show "fst (clk_sam9x5_peripheral_set_rate periph rate parent_rate) = - EINVAL"
    by (auto simp: set_rate_fixed)
next
  assume "\<not> (id_s periph < PERIPHERAL_ID_MIN \<or> max_r (range_s periph) = 0)"
    "max_r (range_s periph) < rate"
  then show "fst (clk_sam9x5_peripheral_set_rate periph rate parent_rate) = - EINVAL"
    by (simp add: set_rate_above_max)
next
  assume a: "\<not> (id_s periph < PERIPHERAL_ID_MIN \<or> max_r (range_s periph) = 0)"
    "rate \<le> max_r (range_s periph)" "\<exists>s\<le>PERIPHERAL_MAX_SHIFT. drop_bit s parent_rate = rate"
  from set_rate_ranged [OF a(1,2), of parent_rate] a(3)
  show "\<exists>k\<le>PERIPHERAL_MAX_SHIFT. drop_bit k parent_rate = rate \<and>
          (\<forall>t<k. drop_bit t parent_rate \<noteq> rate) \<and>
          clk_sam9x5_peripheral_set_rate periph rate parent_rate =
            (0, periph\<lparr>auto_div := False, div_s := of_nat k\<rparr>)"
    by blast
next
  assume a: "\<not> (id_s periph < PERIPHERAL_ID_MIN \<or> max_r (range_s periph) = 0)"
    "rate \<le> max_r (range_s periph)" "\<forall>s\<le>PERIPHERAL_MAX_SHIFT. drop_bit s parent_rate \<noteq> rate"
  from set_rate_ranged [OF a(1,2), of parent_rate] a(3)
  show "fst (clk_sam9x5_peripheral_set_rate periph rate parent_rate) = - EINVAL"
    by simp
qed

text \<open>
  The examples: with parent rate 133 MHz and maximum 83 MHz, the target 16.625 MHz
  succeeds with divider 3, and the target 50 MHz matches at no shift and fails.
\<close>

theorem set_rate_behaviour_witness:
  "\<not> (id_s example_periph < PERIPHERAL_ID_MIN \<or> max_r (range_s example_periph) = 0) \<and>
   (16625000 :: 32 word) \<le> max_r (range_s example_periph) \<and>
   drop_bit 3 (133000000 :: 32 word) = 16625000 \<and>
   clk_sam9x5_peripheral_set_rate example_periph 16625000 133000000 =
     (0, example_periph\<lparr>auto_div := False, div_s := 3\<rparr>) \<and>
   (50000000 :: 32 word) \<le> max_r (range_s example_periph) \<and>
   fst (clk_sam9x5_peripheral_set_rate example_periph 50000000 133000000) = - EINVAL"
proof -
  have n: "\<not> (id_s example_periph < PERIPHERAL_ID_MIN \<or> max_r (range_s example_periph) = 0)"
    by (simp add: example_periph_def)
  have r: "(50000000 :: 32 word) \<le> max_r (range_s example_periph)"
    by (simp add: example_periph_def)
  have miss: "\<forall>s\<le>PERIPHERAL_MAX_SHIFT. drop_bit s (133000000 :: 32 word) \<noteq> 50000000"
  proof (intro allI impI)
    fix s :: nat assume "s \<le> 3"
    then have "s = 0 \<or> s = 1 \<or> s = 2 \<or> s = 3" by arith
    then show "drop_bit s (133000000 :: 32 word) \<noteq> 50000000" by auto
  qed
  have hit: "clk_sam9x5_peripheral_set_rate example_periph 16625000 133000000 =
     (0, example_periph\<lparr>auto_div := False, div_s := 3\<rparr>)"
    by (simp add: clk_sam9x5_peripheral_set_rate_def example_periph_def set_rate_loop.simps)
  from set_rate_behaviour [of example_periph 50000000 133000000] n r miss
  have "fst (clk_sam9x5_peripheral_set_rate example_periph 50000000 133000000) = - EINVAL"
    by simp
  with n r hit show ?thesis by (simp add: example_periph_def)
qed

text \<open>
  Claim C10. For every indirectly addressed node and every requested rate and parent
  rate, set-rate makes no register access: the hardware state after the call is the
  state before it. Of the node it changes at most the divider and the auto-divider
  flag, and when it fails, which it does with invalid-argument, the node is exactly as
  it was.
\<close>

theorem set_rate_frame:
  fixes periph :: "('h, 'l::len) clk_sam9x5_peripheral"
  assumes "run_op (Op_set_rate rate parent_rate) (periph, h) = (periph', h')"
  shows "h' = h \<and>
         periph' = periph\<lparr>div_s := div_s periph', auto_div := auto_div periph'\<rparr> \<and>
         periph' = snd (clk_sam9x5_peripheral_set_rate periph rate parent_rate) \<and>
         (fst (clk_sam9x5_peripheral_set_rate periph rate parent_rate) \<noteq> 0 \<longrightarrow>
            fst (clk_sam9x5_peripheral_set_rate periph rate parent_rate) = - EINVAL \<and>
            periph' = periph)"
proof -
  from assms have h: "h' = h"
    and p: "periph' = snd (clk_sam9x5_peripheral_set_rate periph rate parent_rate)"
    by simp_all
  from set_rate_result [of periph rate parent_rate]
  show ?thesis
  proof (elim disjE exE)
    assume "clk_sam9x5_peripheral_set_rate periph rate parent_rate = (- EINVAL, periph)"
    with h p show ?thesis by simp
  next
    fix d
    assume "clk_sam9x5_peripheral_set_rate periph rate parent_rate =
              (0, periph\<lparr>auto_div := False, div_s := d\<rparr>)"
    with h p show ?thesis by simp
  next
    assume "clk_sam9x5_peripheral_set_rate periph rate parent_rate = (0, periph)"
    with h p show ?thesis by simp
  qed
qed

text \<open>
  On the logging transport the log stays empty across a successful and a failing call.
\<close>

theorem set_rate_frame_witness:
  "run_op (Op_set_rate 16625000 133000000) (example_periph, (0, [])) =
     (example_periph\<lparr>auto_div := False, div_s := 3\<rparr>, (0, [])) \<and>
   run_op (Op_set_rate 50000000 133000000) (example_periph, (0, [])) =
     (example_periph, (0, [])) \<and>
   fst (clk_sam9x5_peripheral_set_rate example_periph 50000000 133000000) = - EINVAL"
proof -
  have a: "run_op (Op_set_rate 16625000 133000000) (example_periph, (0, [])) =
     (example_periph\<lparr>auto_div := False, div_s := 3\<rparr>, (0, []))"
    by (simp add: clk_sam9x5_peripheral_set_rate_def example_periph_def set_rate_loop.simps)
  have b: "clk_sam9x5_peripheral_set_rate example_periph 50000000 133000000 =
     (- EINVAL, example_periph)"
    by (simp add: clk_sam9x5_peripheral_set_rate_def example_periph_def set_rate_loop.simps)
  then have c: "run_op (Op_set_rate 50000000 133000000) (example_periph, (0, [])) =
     (example_periph, (0, []))"
    by simp
  from set_rate_frame [OF a] a b c show ?thesis by simp
qed

subsection \<open>Reading the rate back\<close>

text \<open>
  Claim C5. For every indirectly addressed node and parent rate: recalc-rate returns the
  parent rate unchanged when the id is below 2. Otherwise it selects the id and reads
  the control register. If the value read has the enable bit set, it stores the value
  of the divider field as the divider of the node and clears the auto-divider flag,
  whatever the flag was before. If the enable bit is clear it runs the auto-division
  resolution: a node whose flag is clear stays as it is; a node whose flag is set gets
  divider 0 and a cleared flag when no range maximum is configured, stays as it is when
  a maximum is configured and the parent rate known to the framework is 0, and
  otherwise gets a cleared flag and as divider the smallest shift in 0..3 that brings
  that parent rate within the maximum, or 3 if none does. In either case, with a
  divider below the width of the rate, where the shift is defined, it returns the
  parent rate shifted right by the divider the node has then, which is the parent rate
  divided by two to the power of the divider.
\<close>

theorem recalc_rate_behaviour:
  fixes periph :: "('h, 'l::len) clk_sam9x5_peripheral"
  shows "(id_s periph < PERIPHERAL_ID_MIN \<longrightarrow>
            clk_sam9x5_peripheral_recalc_rate periph parent_rate core_rate h
              = (Some parent_rate, periph, h)) \<and>
         (\<not> id_s periph < PERIPHERAL_ID_MIN \<longrightarrow>
            (\<exists>status h2 periph'.
               regmap_read (regmap_s periph) (offset (layout periph))
                 (regmap_write (regmap_s periph) (offset (layout periph))
                    (id_s periph AND pid_mask (layout periph)) h) = (status, h2) \<and>
               (status AND AT91_PMC_PCR_EN \<noteq> 0 \<longrightarrow>
                  periph' = periph\<lparr>div_s := field_get (div_mask (layout periph)) status,
                                    auto_div := False\<rparr>) \<and>
               (status AND AT91_PMC_PCR_EN = 0 \<longrightarrow>
                  periph' = clk_sam9x5_peripheral_autodiv periph core_rate \<and>
                  (\<not> auto_div periph \<longrightarrow> periph' = periph) \<and>
                  (auto_div periph \<and> max_r (range_s periph) = 0 \<longrightarrow>
                     periph' = periph\<lparr>auto_div := False, div_s := 0\<rparr>) \<and>
                  (auto_div periph \<and> max_r (range_s periph) \<noteq> 0 \<and> core_rate = 0 \<longrightarrow>
                     periph' = periph) \<and>
                  (auto_div periph \<and> max_r (range_s periph) \<noteq> 0 \<and> core_rate \<noteq> 0 \<longrightarrow>
                     (\<exists>d\<le>3. (\<forall>t<d. \<not> drop_bit t core_rate \<le> max_r (range_s periph)) \<and>
                            (drop_bit d core_rate \<le> max_r (range_s periph) \<or> d = 3) \<and>
                            periph' = periph\<lparr>auto_div := False, div_s := of_nat d\<rparr>))) \<and>
               snd (clk_sam9x5_peripheral_recalc_rate periph parent_rate core_rate h)
                 = (periph', h2) \<and>
               (unat (div_s periph') < LENGTH('l) \<longrightarrow>
                  fst (clk_sam9x5_peripheral_recalc_rate periph parent_rate core_rate h)
                    = Some (drop_bit (unat (div_s periph')) parent_rate) \<and>
                  unat (drop_bit (unat (div_s periph')) parent_rate)
                    = unat parent_rate div 2 ^ unat (div_s periph'))))"
proof (intro conjI impI)
  assume "id_s periph < PERIPHERAL_ID_MIN"
  then show "clk_sam9x5_peripheral_recalc_rate periph parent_rate core_rate h
              = (Some parent_rate, periph, h)"
    by (simp add: clk_sam9x5_peripheral_recalc_rate_def)
next
  assume id: "\<not> id_s periph < PERIPHERAL_ID_MIN"
  obtain status h2 where rd:
    "regmap_read (regmap_s periph) (offset (layout periph))
       (regmap_write (regmap_s periph) (offset (layout periph))
          (id_s periph AND pid_mask (layout periph)) h) = (status, h2)"
    by (cases "regmap_read (regmap_s periph) (offset (layout periph))
       (regmap_write (regmap_s periph) (offset (layout periph))
          (id_s periph AND pid_mask (layout periph)) h)")
  define periph' where "periph' =
    (if status AND AT91_PMC_PCR_EN \<noteq> 0
     then periph\<lparr>div_s := field_get (div_mask (layout periph)) status, auto_div := False\<rparr>
     else clk_sam9x5_peripheral_autodiv periph core_rate)"
  have res: "clk_sam9x5_peripheral_recalc_rate periph parent_rate core_rate h
                 = (if unat (div_s periph') < LENGTH('l)
                    then Some (drop_bit (unat (div_s periph')) parent_rate) else None,
                    periph', h2)"
    using id by (simp add: clk_sam9x5_peripheral_recalc_rate_def Let_def rd periph'_def)
  have num: "unat (drop_bit (unat (div_s periph')) parent_rate)
                 = unat parent_rate div 2 ^ unat (div_s periph')"
    unfolding unat_drop_bit_eq by (simp add: drop_bit_eq_div)
  have en: "status AND AT91_PMC_PCR_EN \<noteq> 0 \<longrightarrow>
      periph' = periph\<lparr>div_s := field_get (div_mask (layout periph)) status, auto_div := False\<rparr>"
    by (simp add: periph'_def)
  have dis: "status AND AT91_PMC_PCR_EN = 0 \<longrightarrow>
                  periph' = clk_sam9x5_peripheral_autodiv periph core_rate \<and>
                  (\<not> auto_div periph \<longrightarrow> periph' = periph) \<and>
                  (auto_div periph \<and> max_r (range_s periph) = 0 \<longrightarrow>
                     periph' = periph\<lparr>auto_div := False, div_s := 0\<rparr>) \<and>
                  (auto_div periph \<and> max_r (range_s periph) \<noteq> 0 \<and> core_rate = 0 \<longrightarrow>
                     periph' = periph) \<and>
                  (auto_div periph \<and> max_r (range_s periph) \<noteq> 0 \<and> core_rate \<noteq> 0 \<longrightarrow>
                     (\<exists>d\<le>3. (\<forall>t<d. \<not> drop_bit t core_rate \<le> max_r (range_s periph)) \<and>
                            (drop_bit d core_rate \<le> max_r (range_s periph) \<or> d = 3) \<and>
                            periph' = periph\<lparr>auto_div := False, div_s := of_nat d\<rparr>))"
  proof
    assume "status AND AT91_PMC_PCR_EN = 0"
    then have "periph' = clk_sam9x5_peripheral_autodiv periph core_rate"
      by (simp add: periph'_def)
    with autodiv_cases [of periph core_rate]
    show "periph' = clk_sam9x5_peripheral_autodiv periph core_rate \<and>
                  (\<not> auto_div periph \<longrightarrow> periph' = periph) \<and>
                  (auto_div periph \<and> max_r (range_s periph) = 0 \<longrightarrow>
                     periph' = periph\<lparr>auto_div := False, div_s := 0\<rparr>) \<and>
                  (auto_div periph \<and> max_r (range_s periph) \<noteq> 0 \<and> core_rate = 0 \<longrightarrow>
                     periph' = periph) \<and>
                  (auto_div periph \<and> max_r (range_s periph) \<noteq> 0 \<and> core_rate \<noteq> 0 \<longrightarrow>
                     (\<exists>d\<le>3. (\<forall>t<d. \<not> drop_bit t core_rate \<le> max_r (range_s periph)) \<and>
                            (drop_bit d core_rate \<le> max_r (range_s periph) \<or> d = 3) \<and>
                            periph' = periph\<lparr>auto_div := False, div_s := of_nat d\<rparr>))"
      by simp
  qed
  have rate: "unat (div_s periph') < LENGTH('l) \<longrightarrow>
                  fst (clk_sam9x5_peripheral_recalc_rate periph parent_rate core_rate h)
                    = Some (drop_bit (unat (div_s periph')) parent_rate) \<and>
                  unat (drop_bit (unat (div_s periph')) parent_rate)
                    = unat parent_rate div 2 ^ unat (div_s periph')"
    using num by (simp add: res)
  have node: "snd (clk_sam9x5_peripheral_recalc_rate periph parent_rate core_rate h)
                 = (periph', h2)"
    by (simp add: res)
  from rd en dis node rate
  show "\<exists>status h2 periph'.
               regmap_read (regmap_s periph) (offset (layout periph))
                 (regmap_write (regmap_s periph) (offset (layout periph))
                    (id_s periph AND pid_mask (layout periph)) h) = (status, h2) \<and>
               (status AND AT91_PMC_PCR_EN \<noteq> 0 \<longrightarrow>
                  periph' = periph\<lparr>div_s := field_get (div_mask (layout periph)) status,
                                    auto_div := False\<rparr>) \<and>
               (status AND AT91_PMC_PCR_EN = 0 \<longrightarrow>
                  periph' = clk_sam9x5_peripheral_autodiv periph core_rate \<and>
                  (\<not> auto_div periph \<longrightarrow> periph' = periph) \<and>
                  (auto_div periph \<and> max_r (range_s periph) = 0 \<longrightarrow>
                     periph' = periph\<lparr>auto_div := False, div_s := 0\<rparr>) \<and>
                  (auto_div periph \<and> max_r (range_s periph) \<noteq> 0 \<and> core_rate = 0 \<longrightarrow>
                     periph' = periph) \<and>
                  (auto_div periph \<and> max_r (range_s periph) \<noteq> 0 \<and> core_rate \<noteq> 0 \<longrightarrow>
                     (\<exists>d\<le>3. (\<forall>t<d. \<not> drop_bit t core_rate \<le> max_r (range_s periph)) \<and>
                            (drop_bit d core_rate \<le> max_r (range_s periph) \<or> d = 3) \<and>
                            periph' = periph\<lparr>auto_div := False, div_s := of_nat d\<rparr>))) \<and>
               snd (clk_sam9x5_peripheral_recalc_rate periph parent_rate core_rate h)
                 = (periph', h2) \<and>
               (unat (div_s periph') < LENGTH('l) \<longrightarrow>
                  fst (clk_sam9x5_peripheral_recalc_rate periph parent_rate core_rate h)
                    = Some (drop_bit (unat (div_s periph')) parent_rate) \<and>
                  unat (drop_bit (unat (div_s periph')) parent_rate)
                    = unat parent_rate div 2 ^ unat (div_s periph'))"
    by (intro exI [of _ status] exI [of _ h2] exI [of _ periph'] conjI)
qed

text \<open>
  A node whose flag is still set, with maximum 83 MHz. Reading a register value with
  the enable bit and the divider field 2, the divider becomes 2, the flag is cleared,
  and 133 MHz is reported as 33.25 MHz. Reading a register value with the enable bit
  clear, the resolution against the parent rate 133 MHz stores the divider 1 and clears
  the flag, and 66.5 MHz is reported.
\<close>

theorem recalc_rate_behaviour_witness:
  "\<not> id_s example_periph < PERIPHERAL_ID_MIN \<and> auto_div example_periph \<and>
   (0x10020000 :: u32) AND AT91_PMC_PCR_EN \<noteq> 0 \<and>
   field_get (div_mask (layout example_periph)) 0x10020000 = 2 \<and>
   unat (2 :: u32) < LENGTH(32) \<and>
   clk_sam9x5_peripheral_recalc_rate example_periph 133000000 133000000 (0x10020000, [])
     = (Some 33250000, example_periph\<lparr>div_s := 2, auto_div := False\<rparr>,
        (0x10020000, [Reg_write 0x10c 5, Reg_read 0x10c])) \<and>
   (0 :: u32) AND AT91_PMC_PCR_EN = 0 \<and>
   max_r (range_s example_periph) \<noteq> 0 \<and> (133000000 :: 32 word) \<noteq> 0 \<and>
   unat (1 :: u32) < LENGTH(32) \<and>
   clk_sam9x5_peripheral_recalc_rate example_periph 133000000 133000000 (0, [])
     = (Some 66500000, example_periph\<lparr>auto_div := False, div_s := 1\<rparr>,
        (0, [Reg_write 0x10c 5, Reg_read 0x10c]))"
proof -
  have i: "\<not> id_s example_periph < PERIPHERAL_ID_MIN" by (simp add: example_periph_def)
  have a: "auto_div example_periph" by (simp add: example_periph_def)
  have m: "max_r (range_s example_periph) \<noteq> 0" by (simp add: example_periph_def)
  have en: "(0x10020000 :: u32) AND AT91_PMC_PCR_EN \<noteq> 0" by (simp add: AT91_PMC_PCR_EN_def)
  have fld: "field_get (div_mask (layout example_periph)) 0x10020000 = 2"
    by (simp add: example_periph_def example_layout_def field_get_def ffs.simps)
  have rd: "regmap_read (regmap_s example_periph) (offset (layout example_periph))
       (regmap_write (regmap_s example_periph) (offset (layout example_periph))
          (id_s example_periph AND pid_mask (layout example_periph)) (v, []))
     = (v, (v, [Reg_write 0x10c 5, Reg_read 0x10c]))" for v
    by (simp add: example_periph_def example_layout_def pcr_regmap_def)
  have enabled: "clk_sam9x5_peripheral_recalc_rate example_periph 133000000 133000000
       (0x10020000, [])
     = (Some 33250000, example_periph\<lparr>div_s := 2, auto_div := False\<rparr>,
        (0x10020000, [Reg_write 0x10c 5, Reg_read 0x10c]))"
  proof -
    from recalc_rate_behaviour [of example_periph 133000000 133000000 "(0x10020000, [])"] i
    obtain status h2 periph' where
      "regmap_read (regmap_s example_periph) (offset (layout example_periph))
         (regmap_write (regmap_s example_periph) (offset (layout example_periph))
            (id_s example_periph AND pid_mask (layout example_periph)) (0x10020000, []))
       = (status, h2)"
      and upd: "status AND AT91_PMC_PCR_EN \<noteq> 0 \<longrightarrow>
         periph' = example_periph\<lparr>div_s := field_get (div_mask (layout example_periph)) status,
                                   auto_div := False\<rparr>"
      and node: "snd (clk_sam9x5_peripheral_recalc_rate example_periph 133000000 133000000
                   (0x10020000, [])) = (periph', h2)"
      and rate: "unat (div_s periph') < LENGTH(32) \<longrightarrow>
         fst (clk_sam9x5_peripheral_recalc_rate example_periph 133000000 133000000
                (0x10020000, [])) = Some (drop_bit (unat (div_s periph')) 133000000)"
      by blast
    with rd [of "0x10020000"] have st: "status = 0x10020000"
      and h2: "h2 = (0x10020000, [Reg_write 0x10c 5, Reg_read 0x10c])"
      by simp_all
    from upd en fld have p: "periph' = example_periph\<lparr>div_s := 2, auto_div := False\<rparr>"
      unfolding st by simp
    from rate have "fst (clk_sam9x5_peripheral_recalc_rate example_periph 133000000 133000000
                (0x10020000, [])) = Some 33250000"
      unfolding p by simp
    with node show ?thesis unfolding p h2 by (simp add: prod_eq_iff)
  qed
  have disabled: "clk_sam9x5_peripheral_recalc_rate example_periph 133000000 133000000 (0, [])
     = (Some 66500000, example_periph\<lparr>auto_div := False, div_s := 1\<rparr>,
        (0, [Reg_write 0x10c 5, Reg_read 0x10c]))"
  proof -
    from recalc_rate_behaviour [of example_periph 133000000 133000000 "(0, [])"] i
    obtain status h2 periph' where
      "regmap_read (regmap_s example_periph) (offset (layout example_periph))
         (regmap_write (regmap_s example_periph) (offset (layout example_periph))
            (id_s example_periph AND pid_mask (layout example_periph)) (0, []))
       = (status, h2)"
      and res: "status AND AT91_PMC_PCR_EN = 0 \<longrightarrow>
         (auto_div example_periph \<and> max_r (range_s example_periph) \<noteq> 0 \<and>
            (133000000 :: 32 word) \<noteq> 0 \<longrightarrow>
            (\<exists>d\<le>3. (\<forall>t<d. \<not> drop_bit t (133000000 :: 32 word)
                                 \<le> max_r (range_s example_periph)) \<and>
                   (drop_bit d (133000000 :: 32 word) \<le> max_r (range_s example_periph) \<or> d = 3) \<and>
                   periph' = example_periph\<lparr>auto_div := False, div_s := of_nat d\<rparr>))"
      and node: "snd (clk_sam9x5_peripheral_recalc_rate example_periph 133000000 133000000
                   (0, [])) = (periph', h2)"
      and rate: "unat (div_s periph') < LENGTH(32) \<longrightarrow>
         fst (clk_sam9x5_peripheral_recalc_rate example_periph 133000000 133000000
                (0, [])) = Some (drop_bit (unat (div_s periph')) 133000000)"
      by blast
    with rd [of 0] have st: "status = 0"
      and h2: "h2 = (0, [Reg_write 0x10c 5, Reg_read 0x10c])"
      by simp_all
    from res a m obtain d where d: "d \<le> 3"
        "\<forall>t<d. \<not> drop_bit t (133000000 :: 32 word) \<le> max_r (range_s example_periph)"
        "drop_bit d (133000000 :: 32 word) \<le> max_r (range_s example_periph) \<or> d = 3"
        "periph' = example_periph\<lparr>auto_div := False, div_s := of_nat d\<rparr>"
      unfolding st by auto
    have one: "drop_bit 1 (133000000 :: 32 word) \<le> max_r (range_s example_periph)"
      by (simp add: example_periph_def)
    have zero: "\<not> drop_bit 0 (133000000 :: 32 word) \<le> max_r (range_s example_periph)"
      by (simp add: example_periph_def)
    from d(2) one have "\<not> 1 < d" by blast
    moreover have "d \<noteq> 0"
    proof
      assume "d = 0"
      with d(3) have "drop_bit 0 (133000000 :: 32 word) \<le> max_r (range_s example_periph)"
        by simp
      with zero show False by (rule notE)
    qed
    ultimately have "d = 1" by simp
    with d(4) have p: "periph' = example_periph\<lparr>auto_div := False, div_s := 1\<rparr>" by simp
    from rate have "fst (clk_sam9x5_peripheral_recalc_rate example_periph 133000000 133000000
                (0, [])) = Some 66500000"
      unfolding p by simp
    with node show ?thesis unfolding p h2 by (simp add: prod_eq_iff)
  qed
  have z: "(0 :: u32) AND AT91_PMC_PCR_EN = 0" by simp
  have nz: "(133000000 :: 32 word) \<noteq> 0" by simp
  have w2: "unat (2 :: u32) < LENGTH(32)" by simp
  have w1: "unat (1 :: u32) < LENGTH(32)" by simp
  from i a en fld w2 enabled z m nz w1 disabled show ?thesis by (intro conjI)
qed

subsection \<open>The auto-divider flag\<close>

text \<open>
  Claim C7. For every indirectly addressed node and every sequence of operations
  (enable, disable, is-enabled, recalc-rate, round-rate, set-rate and auto-division
  resolution, with any arguments and on any hardware): once the auto-divider flag is
  false, it is false after the sequence. No operation sets it back to true.
\<close>

theorem auto_div_never_rearmed:
  fixes periph :: "('h, 'l::len) clk_sam9x5_peripheral"
  assumes "\<not> auto_div periph"
  shows "\<not> auto_div (fst (run_ops xs (periph, h)))"
  using assms
proof (induction xs arbitrary: periph h)
  case Nil
  then show ?case by simp
next
  case (Cons x xs)
  obtain periph1 h1 where step: "run_op x (periph, h) = (periph1, h1)"
    by (cases "run_op x (periph, h)")
  with Cons.prems have "\<not> auto_div periph1"
    using run_op_keeps_cleared [of periph x h] by simp
  then have "\<not> auto_div (fst (run_ops xs (periph1, h1)))" by (rule Cons.IH)
  with step show ?case by simp
qed

text \<open>A node with a cleared flag, taken through every operation.\<close>

theorem auto_div_never_rearmed_witness:
  "\<not> auto_div (example_periph\<lparr>auto_div := False\<rparr>) \<and>
   \<not> auto_div (fst (run_ops
       [Op_enable, Op_recalc_rate 133000000 133000000, Op_autodiv 133000000,
        Op_round_rate 70000000 133000000, Op_set_rate 16625000 133000000,
        Op_is_enabled, Op_disable, Op_recalc_rate 133000000 0, Op_autodiv 0]
       (example_periph\<lparr>auto_div := False\<rparr>, (0, []))))"
proof -
  have c: "\<not> auto_div (example_periph\<lparr>auto_div := False\<rparr>)" by simp
  from c auto_div_never_rearmed [OF c] show ?thesis by (rule conjI)
qed

subsection \<open>The legacy node\<close>

text \<open>
  Claim C8. For every legacy node with id in 2..31, on every register transport where a
  write to the enable register sets the written bits in what the status register reads
  and a write to the disable register clears them: is-enabled after enable returns
  true (1), and is-enabled after disable returns false (0).
\<close>

theorem legacy_enable_disable_status:
  fixes periph :: "'h clk_peripheral"
  assumes "PERIPHERAL_ID_MIN \<le> id_p periph" and "id_p periph \<le> PERIPHERAL_ID_MAX"
    and "\<forall>val h. fst (regmap_read (regmap_p periph) AT91_PMC_PCSR
                        (regmap_write (regmap_p periph) AT91_PMC_PCER val h))
                 = fst (regmap_read (regmap_p periph) AT91_PMC_PCSR h) OR val"
    and "\<forall>val h. fst (regmap_read (regmap_p periph) AT91_PMC_PCSR
                        (regmap_write (regmap_p periph) AT91_PMC_PCDR val h))
                 = fst (regmap_read (regmap_p periph) AT91_PMC_PCSR h) AND NOT val"
  shows "fst (clk_peripheral_is_enabled periph (snd (clk_peripheral_enable periph h))) = 1 \<and>
         fst (clk_peripheral_is_enabled periph (clk_peripheral_disable periph h)) = 0"
proof -
  have lo: "\<not> id_p periph < PERIPHERAL_ID_MIN" using assms(1) by (simp add: not_less)
  have hi: "\<not> id_p periph > PERIPHERAL_ID_MAX" using assms(2) by (simp add: not_less)
  have en: "snd (clk_peripheral_enable periph h)
      = regmap_write (regmap_p periph) AT91_PMC_PCER (PERIPHERAL_MASK (id_p periph)) h"
    using lo hi by (simp add: clk_peripheral_enable_def Let_def)
  have dis: "clk_peripheral_disable periph h
      = regmap_write (regmap_p periph) AT91_PMC_PCDR (PERIPHERAL_MASK (id_p periph)) h"
    using lo hi by (simp add: clk_peripheral_disable_def Let_def)
  have st: "fst (clk_peripheral_is_enabled periph g)
      = (if fst (regmap_read (regmap_p periph) AT91_PMC_PCSR g)
              AND PERIPHERAL_MASK (id_p periph) \<noteq> 0 then 1 else 0)" for g
    using lo hi by (simp add: clk_peripheral_is_enabled_def Let_def split: prod.split)
  have "fst (clk_peripheral_is_enabled periph (snd (clk_peripheral_enable periph h))) = 1"
    unfolding st en using assms(3) by (simp add: mask_set_test PERIPHERAL_MASK_nonzero)
  moreover
  have "fst (clk_peripheral_is_enabled periph (clk_peripheral_disable periph h)) = 0"
    unfolding st dis using assms(4) by (simp add: mask_clear_test)
  ultimately show ?thesis by (rule conjI)
qed

text \<open>
  The bit-array register model satisfies both conditions; the node with id 17 sets and
  clears bit 17 of the status word.
\<close>

theorem legacy_enable_disable_status_witness:
  "PERIPHERAL_ID_MIN \<le> id_p \<lparr>regmap_p = pmc_mock_regmap, id_p = 17\<rparr> \<and>
   id_p \<lparr>regmap_p = pmc_mock_regmap, id_p = 17\<rparr> \<le> PERIPHERAL_ID_MAX \<and>
   fst (clk_peripheral_is_enabled \<lparr>regmap_p = pmc_mock_regmap, id_p = 17\<rparr>
          (snd (clk_peripheral_enable \<lparr>regmap_p = pmc_mock_regmap, id_p = 17\<rparr>
                  \<lparr>pcsr = 0, pcsr1 = 0\<rparr>))) = 1 \<and>
   fst (clk_peripheral_is_enabled \<lparr>regmap_p = pmc_mock_regmap, id_p = 17\<rparr>
          (clk_peripheral_disable \<lparr>regmap_p = pmc_mock_regmap, id_p = 17\<rparr>
             \<lparr>pcsr = 0xffffffff, pcsr1 = 0\<rparr>)) = 0 \<and>
   snd (clk_peripheral_enable \<lparr>regmap_p = pmc_mock_regmap, id_p = 17\<rparr>
          \<lparr>pcsr = 0, pcsr1 = 0\<rparr>) = \<lparr>pcsr = 0x20000, pcsr1 = 0\<rparr> \<and>
   clk_peripheral_disable \<lparr>regmap_p = pmc_mock_regmap, id_p = 17\<rparr>
          \<lparr>pcsr = 0xffffffff, pcsr1 = 0\<rparr> = \<lparr>pcsr = 0xfffdffff, pcsr1 = 0\<rparr>"
proof -
  let ?p = "\<lparr>regmap_p = pmc_mock_regmap, id_p = 17\<rparr>"
  have lo: "PERIPHERAL_ID_MIN \<le> id_p ?p" by simp
  have hi: "id_p ?p \<le> PERIPHERAL_ID_MAX" by simp
  have s: "\<forall>val h. fst (regmap_read (regmap_p ?p) AT91_PMC_PCSR
                        (regmap_write (regmap_p ?p) AT91_PMC_PCER val h))
                 = fst (regmap_read (regmap_p ?p) AT91_PMC_PCSR h) OR val"
    by (simp add: pmc_mock_sets)
  have c: "\<forall>val h. fst (regmap_read (regmap_p ?p) AT91_PMC_PCSR
                        (regmap_write (regmap_p ?p) AT91_PMC_PCDR val h))
                 = fst (regmap_read (regmap_p ?p) AT91_PMC_PCSR h) AND NOT val"
    by (simp add: pmc_mock_clears)
  have e: "snd (clk_peripheral_enable ?p \<lparr>pcsr = 0, pcsr1 = 0\<rparr>) = \<lparr>pcsr = 0x20000, pcsr1 = 0\<rparr>"
    by (simp add: clk_peripheral_enable_def pmc_mock_regmap_def pmc_mock_write_def
        PERIPHERAL_MASK_def)
  have d: "clk_peripheral_disable ?p \<lparr>pcsr = 0xffffffff, pcsr1 = 0\<rparr>
             = \<lparr>pcsr = 0xfffdffff, pcsr1 = 0\<rparr>"
    by (simp add: clk_peripheral_disable_def pmc_mock_regmap_def pmc_mock_write_def
        PERIPHERAL_MASK_def AT91_PMC_PCER_def AT91_PMC_PCDR_def)
  from legacy_enable_disable_status [OF lo hi s c, of "\<lparr>pcsr = 0, pcsr1 = 0\<rparr>"]
  have en: "fst (clk_peripheral_is_enabled ?p
              (snd (clk_peripheral_enable ?p \<lparr>pcsr = 0, pcsr1 = 0\<rparr>))) = 1"
    by (rule conjunct1)
  from legacy_enable_disable_status [OF lo hi s c, of "\<lparr>pcsr = 0xffffffff, pcsr1 = 0\<rparr>"]
  have di: "fst (clk_peripheral_is_enabled ?p
              (clk_peripheral_disable ?p \<lparr>pcsr = 0xffffffff, pcsr1 = 0\<rparr>)) = 0"
    by (rule conjunct2)
  from lo hi en di e d show ?thesis by (intro conjI)
qed

subsection \<open>Registration\<close>

text \<open>
  Claim C9, as amended. For every id above 31, constructing a legacy node with that id
  fails with invalid-argument, whatever the other arguments are. The constructor of the
  indirectly addressed node does not bound the id: with a name and a parent name
  supplied, and allocation and registration succeeding, it returns a node with that
  id.
\<close>

theorem register_rejects_high_id:
  assumes "PERIPHERAL_ID_MAX < i"
  shows "at91_clk_register_peripheral rm name parent_name i alloc_ok ret = Inl (- EINVAL) \<and>
         (\<exists>periph :: ('h, 'l::len) clk_sam9x5_peripheral.
            at91_clk_register_sam9x5_peripheral rm' lay (Some nm) (Some pnm) i rng True 0 core_rate
              = Inr periph \<and> id_s periph = i)"
proof
  from assms show "at91_clk_register_peripheral rm name parent_name i alloc_ok ret = Inl (- EINVAL)"
    by (simp add: at91_clk_register_peripheral_def)
next
  have "id_s (clk_sam9x5_peripheral_autodiv p core_rate) = id_s p"
    for p :: "('h, 'l) clk_sam9x5_peripheral"
    by (simp add: clk_sam9x5_peripheral_autodiv_def)
  then show "\<exists>periph :: ('h, 'l) clk_sam9x5_peripheral.
            at91_clk_register_sam9x5_peripheral rm' lay (Some nm) (Some pnm) i rng True 0 core_rate
              = Inr periph \<and> id_s periph = i"
    by (simp add: at91_clk_register_sam9x5_peripheral_def Let_def)
qed

text \<open>The legacy constructor rejects the id 32 although names are given.\<close>

theorem register_rejects_high_id_witness:
  "PERIPHERAL_ID_MAX < (32 :: u32) \<and>
   at91_clk_register_peripheral pmc_mock_regmap (Some ''spi0_clk'') (Some ''masterck'') 32 True 0
     = Inl (- EINVAL)"
proof -
  have a: "PERIPHERAL_ID_MAX < (32 :: u32)" by simp
  from a register_rejects_high_id [OF a, THEN conjunct1] show ?thesis by (rule conjI)
qed

text \<open>
  The claim as first stated, that both constructors reject an id above 31, fails for
  the indirectly addressed node: the id 32 is accepted and the node is returned, its
  divider resolved against the parent rate.
\<close>

theorem register_sam9x5_accepts_high_id:
  "PERIPHERAL_ID_MAX < (32 :: u32) \<and>
   at91_clk_register_sam9x5_peripheral pcr_regmap example_layout
       (Some ''spi0_clk'') (Some ''masterck'') 32 \<lparr>min_r = 0, max_r = 83000000 :: 32 word\<rparr>
       True 0 133000000
     = Inr \<lparr>regmap_s = pcr_regmap, range_s = \<lparr>min_r = 0, max_r = 83000000\<rparr>, id_s = 32,
            div_s = 1, layout = example_layout, auto_div = False\<rparr>"
  by (simp add: at91_clk_register_sam9x5_peripheral_def clk_sam9x5_peripheral_autodiv_def
      example_layout_def autodiv_loop.simps)

end
